theory Spec2Isabelle
  imports Complex_Main "HOL-Library.Word"
begin

section \<open>Common conventions\<close>

text \<open>
  The two scripts (\<^verbatim>\<open>scripts/render_node_overlay.py\<close> and
  \<^verbatim>\<open>scripts/combine_board_images.py\<close>) compute with Python floats and
  with numpy float32 arrays. Every floating-point quantity is modelled here as a
  \<^typ>\<open>real\<close>: comparisons, the order of operations and every raise are kept,
  infinities and NaN are not modelled. Rounding is not modelled either, except in the
  float32 variants of the blending functions (\<open>blend_images_f32\<close> and the functions it
  calls), where the rounding of every operation is a parameter. Python exceptions are
  values of the type \<open>error\<close>; a function that can raise returns \<open>error + 'a\<close>.
\<close>

datatype error =
    ValueError string
  | ZeroDivisionError
  | RuntimeError string
  | IndexError

section \<open>render\_node\_overlay.py\<close>

subsection \<open>Node\<close>

text \<open>
  The dataclass \<^verbatim>\<open>Node(node_id, x, y, edges)\<close>. The fields \<^verbatim>\<open>x\<close> and
  \<^verbatim>\<open>y\<close> are named \<open>pos_x\<close> and \<open>pos_y\<close>, so that \<open>x\<close> and \<open>y\<close>
  stay free for variables. The entries of \<^verbatim>\<open>edges\<close> are JSON objects that no
  function of the script inspects; their type is a parameter.
\<close>

record 'e Node =
  node_id :: int
  pos_x :: real
  pos_y :: real
  edges :: "'e list"

subsection \<open>compute\_transform\<close>

text \<open>
  \<^verbatim>\<open>ndarray.min()\<close> and \<^verbatim>\<open>ndarray.max()\<close> of a one-dimensional array with at
  least one element. On an empty array numpy raises ValueError; the caller below tests
  for that before it uses these two functions.
\<close>

definition array_min :: "real list \<Rightarrow> real" where
  "array_min xs = fold min (tl xs) (hd xs)"

definition array_max :: "real list \<Rightarrow> real" where
  "array_max xs = fold max (tl xs) (hd xs)"

definition empty_reduction_msg :: string where
  "empty_reduction_msg = ''zero-size array to reduction operation minimum which has no identity''"

definition margin_msg :: string where
  "margin_msg = ''Margin is too large for the given image dimensions''"

text \<open>
  \<^verbatim>\<open>compute_transform(nodes, width, height, margin, mode)\<close>, statement by statement:
  the two reductions (which raise on an empty node list), the margin test, then the
  three modes. \<^verbatim>\<open>usable_w / src_width\<close> is a division of Python floats, which
  raises ZeroDivisionError when the divisor is zero; in the uniform mode both quotients
  are evaluated before \<^verbatim>\<open>min\<close> is taken.
\<close>

definition compute_transform ::
  "'e Node list \<Rightarrow> int \<Rightarrow> int \<Rightarrow> real \<Rightarrow> string \<Rightarrow> error + (real \<times> real \<times> real \<times> real)" where
  "compute_transform nodes width height margin mode =
    (if nodes = [] then Inl (ValueError empty_reduction_msg)
     else
       let xs = map pos_x nodes;
           ys = map pos_y nodes;
           min_x = array_min xs; max_x = array_max xs;
           min_y = array_min ys; max_y = array_max ys;
           src_width = max_x - min_x;
           src_height = max_y - min_y;
           usable_w = real_of_int width - 2 * margin;
           usable_h = real_of_int height - 2 * margin
       in
         if usable_w \<le> 0 \<or> usable_h \<le> 0 then Inl (ValueError margin_msg)
         else if mode = ''raw'' then Inr (1, 1, 0, 0)
         else if mode = ''stretch'' then
           (if src_width = 0 \<or> src_height = 0 then Inl ZeroDivisionError
            else
              let scale_x = usable_w / src_width;
                  scale_y = usable_h / src_height;
                  offset_x = margin - scale_x * min_x;
                  offset_y = margin - scale_y * min_y
              in Inr (scale_x, scale_y, offset_x, offset_y))
         else
           (if src_width = 0 \<or> src_height = 0 then Inl ZeroDivisionError
            else
              let uniform_scale = min (usable_w / src_width) (usable_h / src_height);
                  offset_x = (real_of_int width - uniform_scale * src_width) / 2 - uniform_scale * min_x;
                  offset_y = (real_of_int height - uniform_scale * src_height) / 2 - uniform_scale * min_y
              in Inr (uniform_scale, uniform_scale, offset_x, offset_y)))"

subsection \<open>transform\_nodes\<close>

text \<open>
  The loop of \<^verbatim>\<open>transform_nodes\<close> appends one new \<^verbatim>\<open>Node\<close> per input node, in
  order; the recursion below is that loop.
\<close>

fun transform_nodes :: "'e Node list \<Rightarrow> real \<Rightarrow> real \<Rightarrow> real \<Rightarrow> real \<Rightarrow> 'e Node list" where
  "transform_nodes [] scale_x scale_y offset_x offset_y = []"
| "transform_nodes (node # nodes) scale_x scale_y offset_x offset_y =
     \<lparr> node_id = node_id node,
       pos_x = pos_x node * scale_x + offset_x,
       pos_y = pos_y node * scale_y + offset_y,
       edges = edges node \<rparr>
     # transform_nodes nodes scale_x scale_y offset_x offset_y"

section \<open>combine\_board\_images.py\<close>

subsection \<open>Images and arrays\<close>

text \<open>
  An image is a numpy array of shape (height, width, 3) of uint8, channels in the order
  blue, green, red: a list of rows of pixels. A single-channel uint8 image and a
  float32 map are lists of rows as well. \<open>dims g h w\<close> says that \<open>g\<close> has \<open>h\<close> rows
  of \<open>w\<close> entries each, which every numpy array of shape (h, w) or (h, w, 3) does.
\<close>

type_synonym pixel = "8 word \<times> 8 word \<times> 8 word"
type_synonym image = "pixel list list"
type_synonym gray_image = "8 word list list"
type_synonym float_map = "real list list"

definition dims :: "'a list list \<Rightarrow> nat \<Rightarrow> nat \<Rightarrow> bool" where
  "dims g h w = (length g = h \<and> list_all (\<lambda>row. length row = w) g)"

subsection \<open>The OpenCV routines the script calls\<close>

text \<open>
  The script delegates to OpenCV (\<^verbatim>\<open>cv2\<close>), which is not part of the repository.
  Its routines are parameters of the model, collected in one record; the fixed arguments
  of each call site are part of the field name or passed as written in the script.
\<close>

record KeyPoint =
  pt :: "real \<times> real"

record DMatch =
  queryIdx :: int
  trainIdx :: int
  distance :: real

datatype norm_type = NORM_L2 | NORM_HAMMING | NORM_MINMAX

datatype homography_method = LEAST_SQUARES | RANSAC | LMEDS | RHO

type_synonym descriptors = "8 word list list"
type_synonym homography = "real list list"

record cv2 =
  cvtColor_BGR2GRAY :: "image \<Rightarrow> gray_image"
  Laplacian_CV_32F :: "float_map \<Rightarrow> float_map"
  GaussianBlur :: "float_map \<Rightarrow> real \<Rightarrow> float_map"
  normalize :: "float_map \<Rightarrow> real \<Rightarrow> real \<Rightarrow> norm_type \<Rightarrow> float_map"
  ORB_detectAndCompute :: "nat \<Rightarrow> gray_image \<Rightarrow> KeyPoint list \<times> descriptors option"
  BFMatcher_match :: "norm_type \<Rightarrow> bool \<Rightarrow> descriptors \<Rightarrow> descriptors \<Rightarrow> DMatch list"
  findHomography :: "(real \<times> real) list \<Rightarrow> (real \<times> real) list \<Rightarrow> homography_method \<Rightarrow> real
                       \<Rightarrow> homography option"
  warpPerspective :: "image \<Rightarrow> homography \<Rightarrow> nat \<times> nat \<Rightarrow> image"

text \<open>
  What the blending functions rely on, for arrays with at least one row and one column:
  the colour conversion and the three filters return an array of the shape of their
  input (the blur for a positive sigma), and the min-max normalisation to \<open>[alpha, beta]\<close>
  returns values between \<open>alpha\<close> and \<open>beta\<close>.
\<close>

definition cv2_contract :: "cv2 \<Rightarrow> bool" where
  "cv2_contract cv =
    ((\<forall>img h w. 0 < h \<and> 0 < w \<and> dims img h w \<longrightarrow> dims (cvtColor_BGR2GRAY cv img) h w) \<and>
     (\<forall>g h w. 0 < h \<and> 0 < w \<and> dims g h w \<longrightarrow> dims (Laplacian_CV_32F cv g) h w) \<and>
     (\<forall>g h w sigma. 0 < h \<and> 0 < w \<and> dims g h w \<and> 0 < sigma \<longrightarrow> dims (GaussianBlur cv g sigma) h w) \<and>
     (\<forall>g h w alpha beta. 0 < h \<and> 0 < w \<and> dims g h w \<and> alpha \<le> beta \<longrightarrow>
        dims (normalize cv g alpha beta NORM_MINMAX) h w \<and>
        list_all (list_all (\<lambda>v. alpha \<le> v \<and> v \<le> beta)) (normalize cv g alpha beta NORM_MINMAX)))"

subsection \<open>align\_secondary\<close>

text \<open>
  \<^verbatim>\<open>kp[i]\<close> on a Python tuple or list: the positions \<open>0\<close> to \<open>len - 1\<close>, the same
  positions again as \<open>- len\<close> to \<open>- 1\<close>, and IndexError for every other index.
\<close>

definition py_index :: "'a list \<Rightarrow> int \<Rightarrow> error + 'a" where
  "py_index xs i =
     (if 0 \<le> i \<and> i < int (length xs) then Inr (xs ! nat i)
      else if - int (length xs) \<le> i \<and> i < 0 then Inr (xs ! nat (i + int (length xs)))
      else Inl IndexError)"

text \<open>The comprehension \<^verbatim>\<open>[kp[i].pt for ...]\<close>, which stops at the first IndexError.\<close>

fun keypoint_pts :: "KeyPoint list \<Rightarrow> int list \<Rightarrow> error + (real \<times> real) list" where
  "keypoint_pts kp [] = Inr []"
| "keypoint_pts kp (i # idxs) =
     (case py_index kp i of
        Inl e \<Rightarrow> Inl e
      | Inr k \<Rightarrow> (case keypoint_pts kp idxs of
                   Inl e \<Rightarrow> Inl e
                 | Inr ps \<Rightarrow> Inr (pt k # ps)))"

definition descriptors_msg :: string where
  "descriptors_msg = ''Failed to compute ORB descriptors for alignment''"

definition matches_msg :: string where
  "matches_msg = ''Not enough feature matches to compute homography''"

definition homography_msg :: string where
  "homography_msg = ''Could not compute homography''"

text \<open>
  \<^verbatim>\<open>primary.shape[1]\<close> and \<^verbatim>\<open>primary.shape[0]\<close>.
\<close>

definition shape1 :: "'a list list \<Rightarrow> nat" where
  "shape1 img = (case img of [] \<Rightarrow> 0 | row # _ \<Rightarrow> length row)"

definition shape0 :: "'a list list \<Rightarrow> nat" where
  "shape0 img = length img"

text \<open>
  \<^verbatim>\<open>align_secondary(primary, secondary)\<close>. \<^verbatim>\<open>sorted\<close> is stable, as
  \<^const>\<open>sort_key\<close> is; \<^verbatim>\<open>[:300]\<close> is \<^term>\<open>take 300\<close>. The points handed to
  \<^verbatim>\<open>findHomography\<close> are \<^verbatim>\<open>dst_pts\<close> (keypoints of the secondary image) first and
  \<^verbatim>\<open>src_pts\<close> (keypoints of the primary image) second.
\<close>

definition align_secondary :: "cv2 \<Rightarrow> image \<Rightarrow> image \<Rightarrow> error + (image \<times> homography)" where
  "align_secondary cv primary secondary =
    (let primary_gray = cvtColor_BGR2GRAY cv primary;
         secondary_gray = cvtColor_BGR2GRAY cv secondary;
         (kp1, des1) = ORB_detectAndCompute cv 5000 primary_gray;
         (kp2, des2) = ORB_detectAndCompute cv 5000 secondary_gray
     in case des1 of
          None \<Rightarrow> Inl (RuntimeError descriptors_msg)
        | Some d1 \<Rightarrow>
       (case des2 of
          None \<Rightarrow> Inl (RuntimeError descriptors_msg)
        | Some d2 \<Rightarrow>
         (let matches = BFMatcher_match cv NORM_HAMMING True d1 d2 in
          if length matches < 12 then Inl (RuntimeError matches_msg)
          else
           (let matches = take 300 (sort_key distance matches) in
           (case keypoint_pts kp1 (map queryIdx matches) of
              Inl e \<Rightarrow> Inl e
            | Inr src_pts \<Rightarrow>
           (case keypoint_pts kp2 (map trainIdx matches) of
              Inl e \<Rightarrow> Inl e
            | Inr dst_pts \<Rightarrow>
             (case findHomography cv dst_pts src_pts RANSAC 5 of
                None \<Rightarrow> Inl (RuntimeError homography_msg)
              | Some H \<Rightarrow>
                  Inr (warpPerspective cv secondary H (shape1 primary, shape0 primary), H))))))))"

subsection \<open>laplacian\_sharpness\<close>

text \<open>
  \<^verbatim>\<open>laplacian_sharpness(image, sigma)\<close> (the argument is called \<open>img\<close> here): grey conversion, scaling to \<open>[0, 1]\<close>,
  Laplacian, pointwise square, Gaussian blur, min-max normalisation to \<open>[0, 1]\<close>, and
  the constant \<^verbatim>\<open>1e-6\<close> added to every entry.
\<close>

definition laplacian_sharpness :: "cv2 \<Rightarrow> image \<Rightarrow> real \<Rightarrow> float_map" where
  "laplacian_sharpness cv img sigma =
    (let gray = cvtColor_BGR2GRAY cv img;
         gray = map (map (\<lambda>v. real (unat v) / 255)) gray;
         lap = Laplacian_CV_32F cv gray;
         sharpness = GaussianBlur cv (map (map (\<lambda>v. v ^ 2)) lap) sigma;
         sharpness = normalize cv sharpness 0 1 NORM_MINMAX
     in map (map (\<lambda>v. v + 1 / 1000000)) sharpness)"

subsection \<open>blend\_images\<close>

text \<open>
  An elementwise operation of numpy on two arrays. Arrays of different shapes that
  cannot be broadcast raise ValueError. numpy would broadcast an axis of length 1; the
  model raises there as well (every call below is on arrays that the script expects to
  have the same height and width).
\<close>

definition broadcast_msg :: string where
  "broadcast_msg = ''operands could not be broadcast together''"

definition elementwise :: "('a \<Rightarrow> 'b \<Rightarrow> 'c) \<Rightarrow> 'a list list \<Rightarrow> 'b list list \<Rightarrow> error + 'c list list" where
  "elementwise f a b =
     (if map length a = map length b then Inr (map2 (map2 f) a b)
      else Inl (ValueError broadcast_msg))"

text \<open>
  \<^verbatim>\<open>astype(np.float32)\<close> of a uint8 value, and \<^verbatim>\<open>astype(np.uint8)\<close> of a float:
  the fractional part is dropped (truncation towards zero). Nothing clamps: a value
  outside \<open>[0, 256)\<close> is reduced modulo 256 here (numpy leaves that case to the
  platform).
\<close>

definition astype_float32 :: "8 word \<Rightarrow> real" where
  "astype_float32 v = real (unat v)"

definition astype_uint8 :: "real \<Rightarrow> 8 word" where
  "astype_uint8 v = word_of_int (if 0 \<le> v then \<lfloor>v\<rfloor> else \<lceil>v\<rceil>)"

text \<open>
  The first half of \<^verbatim>\<open>blend_images\<close>: the two sharpness maps (default sigma 1.5)
  and the two weight maps. A division by zero would give inf or nan in numpy, not an
  exception; in HOL it gives 0.
\<close>

definition blend_weights :: "cv2 \<Rightarrow> image \<Rightarrow> image \<Rightarrow> error + (float_map \<times> float_map)" where
  "blend_weights cv primary secondary =
    (let sharp_primary = laplacian_sharpness cv primary (3 / 2);
         sharp_secondary = laplacian_sharpness cv secondary (3 / 2)
     in (case elementwise (+) sharp_primary sharp_secondary of
          Inl e \<Rightarrow> Inl e
        | Inr denominator \<Rightarrow>
         (case elementwise (/) sharp_primary denominator of
            Inl e \<Rightarrow> Inl e
          | Inr weight_primary \<Rightarrow>
             (let weight_secondary = map (map (\<lambda>w. 1 - w)) weight_primary
              in Inr (weight_primary, weight_secondary)))))"

text \<open>
  The second half: the images as float arrays, each multiplied by its weight map (the
  weight of a pixel applied to its three channels, \<^verbatim>\<open>weight[..., None]\<close>), added, and
  converted back to uint8.
\<close>

definition scale_pixel :: "real \<times> real \<times> real \<Rightarrow> real \<Rightarrow> real \<times> real \<times> real" where
  "scale_pixel p wt = (case p of (b, g, r) \<Rightarrow> (b * wt, g * wt, r * wt))"

definition add_pixel :: "real \<times> real \<times> real \<Rightarrow> real \<times> real \<times> real \<Rightarrow> real \<times> real \<times> real" where
  "add_pixel p q = (case p of (b, g, r) \<Rightarrow> (case q of (b', g', r') \<Rightarrow> (b + b', g + g', r + r')))"

definition blend_images :: "cv2 \<Rightarrow> image \<Rightarrow> image \<Rightarrow> error + image" where
  "blend_images cv primary secondary =
    (case blend_weights cv primary secondary of
       Inl e \<Rightarrow> Inl e
     | Inr (weight_primary, weight_secondary) \<Rightarrow>
        let primary_f = map (map (\<lambda>(b, g, r). (astype_float32 b, astype_float32 g, astype_float32 r))) primary;
            secondary_f = map (map (\<lambda>(b, g, r). (astype_float32 b, astype_float32 g, astype_float32 r))) secondary
        in (case elementwise scale_pixel primary_f weight_primary of
             Inl e \<Rightarrow> Inl e
           | Inr weighted_primary \<Rightarrow>
            (case elementwise scale_pixel secondary_f weight_secondary of
               Inl e \<Rightarrow> Inl e
             | Inr weighted_secondary \<Rightarrow>
              (case elementwise add_pixel weighted_primary weighted_secondary of
                 Inl e \<Rightarrow> Inl e
               | Inr blended \<Rightarrow>
                   Inr (map (map (\<lambda>(b, g, r). (astype_uint8 b, astype_uint8 g, astype_uint8 r))) blended)))))"

text \<open>
  The blend of one channel in the words of the specification (section 4.4):
  primary pixel times primary weight plus secondary pixel times secondary weight. It is
  what the theorems compare the output of \<open>blend_images\<close> with.
\<close>

definition blend_value :: "8 word \<Rightarrow> 8 word \<Rightarrow> real \<Rightarrow> real \<Rightarrow> real" where
  "blend_value primary_channel secondary_channel weight_primary weight_secondary =
     astype_float32 primary_channel * weight_primary + astype_float32 secondary_channel * weight_secondary"

subsection \<open>The blending functions with float32 rounding written out\<close>

text \<open>
  numpy rounds the result of every float32 operation to float32. The functions of this
  subsection are \<open>laplacian_sharpness\<close>, the two halves of \<open>blend_images\<close> and the
  blend of one channel once more, with that rounding written out as the parameter
  \<open>fl\<close> around every arithmetic operation of the script (the conversion of a uint8
  value to float32 is exact). The constant \<^verbatim>\<open>1e-6\<close> and the constant \<^verbatim>\<open>1.0\<close> are
  Python floats, which numpy converts to float32 before it adds or subtracts. The
  functions without the suffix are the instance in which \<open>fl\<close> is the identity.

  \<open>float32_rounding fl\<close> lists what the theorems use of the rounding. IEEE binary32
  rounding to nearest has all of it: it is monotone and idempotent, 0 and 1 are float32
  numbers, and on the range \<open>\<bar>x\<bar> \<le> 512\<close> the error is at most half a unit in the last
  place, which is at most \<open>\<bar>x\<bar> / 2 ^ 24\<close> for normal numbers and \<open>1 / 2 ^ 150\<close> for
  subnormal ones.
\<close>

definition float32_rounding :: "(real \<Rightarrow> real) \<Rightarrow> bool" where
  "float32_rounding fl =
    ((\<forall>x y. x \<le> y \<longrightarrow> fl x \<le> fl y) \<and>
     (\<forall>x. fl (fl x) = fl x) \<and>
     fl 0 = 0 \<and> fl 1 = 1 \<and>
     (\<forall>x. \<bar>x\<bar> \<le> 512 \<longrightarrow> \<bar>fl x - x\<bar> \<le> \<bar>x\<bar> / 2 ^ 24 + 1 / 2 ^ 150))"

definition laplacian_sharpness_f32 :: "(real \<Rightarrow> real) \<Rightarrow> cv2 \<Rightarrow> image \<Rightarrow> real \<Rightarrow> float_map" where
  "laplacian_sharpness_f32 fl cv img sigma =
    (let gray = cvtColor_BGR2GRAY cv img;
         gray = map (map (\<lambda>v. fl (astype_float32 v / 255))) gray;
         lap = Laplacian_CV_32F cv gray;
         sharpness = GaussianBlur cv (map (map (\<lambda>v. fl (v ^ 2))) lap) sigma;
         sharpness = normalize cv sharpness 0 1 NORM_MINMAX
     in map (map (\<lambda>v. fl (v + fl (1 / 1000000)))) sharpness)"

definition blend_weights_f32 ::
  "(real \<Rightarrow> real) \<Rightarrow> cv2 \<Rightarrow> image \<Rightarrow> image \<Rightarrow> error + (float_map \<times> float_map)" where
  "blend_weights_f32 fl cv primary secondary =
    (let sharp_primary = laplacian_sharpness_f32 fl cv primary (3 / 2);
         sharp_secondary = laplacian_sharpness_f32 fl cv secondary (3 / 2)
     in (case elementwise (\<lambda>a b. fl (a + b)) sharp_primary sharp_secondary of
          Inl e \<Rightarrow> Inl e
        | Inr denominator \<Rightarrow>
         (case elementwise (\<lambda>a d. fl (a / d)) sharp_primary denominator of
            Inl e \<Rightarrow> Inl e
          | Inr weight_primary \<Rightarrow>
             (let weight_secondary = map (map (\<lambda>w. fl (1 - w))) weight_primary
              in Inr (weight_primary, weight_secondary)))))"

definition scale_pixel_f32 :: "(real \<Rightarrow> real) \<Rightarrow> real \<times> real \<times> real \<Rightarrow> real \<Rightarrow> real \<times> real \<times> real" where
  "scale_pixel_f32 fl p wt = (case p of (b, g, r) \<Rightarrow> (fl (b * wt), fl (g * wt), fl (r * wt)))"

definition add_pixel_f32 ::
  "(real \<Rightarrow> real) \<Rightarrow> real \<times> real \<times> real \<Rightarrow> real \<times> real \<times> real \<Rightarrow> real \<times> real \<times> real" where
  "add_pixel_f32 fl p q =
     (case p of (b, g, r) \<Rightarrow> (case q of (b', g', r') \<Rightarrow> (fl (b + b'), fl (g + g'), fl (r + r'))))"

definition blend_images_f32 :: "(real \<Rightarrow> real) \<Rightarrow> cv2 \<Rightarrow> image \<Rightarrow> image \<Rightarrow> error + image" where
  "blend_images_f32 fl cv primary secondary =
    (case blend_weights_f32 fl cv primary secondary of
       Inl e \<Rightarrow> Inl e
     | Inr (weight_primary, weight_secondary) \<Rightarrow>
        let primary_f = map (map (\<lambda>(b, g, r). (astype_float32 b, astype_float32 g, astype_float32 r))) primary;
            secondary_f = map (map (\<lambda>(b, g, r). (astype_float32 b, astype_float32 g, astype_float32 r))) secondary
        in (case elementwise (scale_pixel_f32 fl) primary_f weight_primary of
             Inl e \<Rightarrow> Inl e
           | Inr weighted_primary \<Rightarrow>
            (case elementwise (scale_pixel_f32 fl) secondary_f weight_secondary of
               Inl e \<Rightarrow> Inl e
             | Inr weighted_secondary \<Rightarrow>
              (case elementwise (add_pixel_f32 fl) weighted_primary weighted_secondary of
                 Inl e \<Rightarrow> Inl e
               | Inr blended \<Rightarrow>
                   Inr (map (map (\<lambda>(b, g, r). (astype_uint8 b, astype_uint8 g, astype_uint8 r))) blended)))))"

definition blend_value_f32 :: "(real \<Rightarrow> real) \<Rightarrow> 8 word \<Rightarrow> 8 word \<Rightarrow> real \<Rightarrow> real \<Rightarrow> real" where
  "blend_value_f32 fl primary_channel secondary_channel weight_primary weight_secondary =
     fl (fl (astype_float32 primary_channel * weight_primary)
         + fl (astype_float32 secondary_channel * weight_secondary))"

text \<open>
  The conversion to uint8 in the words of the specification (section 4.4, "rounded /
  clamped back to 8-bit integer range"): round to the nearest integer, then clamp to
  \<open>[0, 255]\<close>. It is what the output of \<open>blend_images_f32\<close> is compared with.
\<close>

definition round_clamp_uint8 :: "real \<Rightarrow> 8 word" where
  "round_clamp_uint8 v = word_of_int (max 0 (min 255 (round v)))"

subsection \<open>An executable instance of the OpenCV record\<close>

text \<open>
  A small instance of the record \<open>cv2\<close>, used to show that \<open>cv2_contract\<close> can be
  met and to apply the theorems to concrete images. It is not OpenCV: the grey
  conversion is the fixed-point luma formula, the Laplacian is the five-point stencil
  with reflected borders, the blur is the 3 by 3 binomial kernel whatever sigma is, the
  normalisation is the min-max formula over the reals, the detector returns thirteen
  fixed keypoints, the matcher pairs them index by index, the homography is the
  identity whenever at least four point pairs are given, and the warp copies the image
  onto a black canvas.
\<close>

definition sample_cvtColor :: "image \<Rightarrow> gray_image" where
  "sample_cvtColor img =
     map (map (\<lambda>(b, g, r). word_of_nat ((unat b * 1868 + unat g * 9617 + unat r * 4899 + 8192) div 16384))) img"

definition reflect101 :: "nat \<Rightarrow> int \<Rightarrow> nat" where
  "reflect101 n k =
     (if n \<le> 1 then 0
      else if k < 0 then nat (- k)
      else if int n \<le> k then nat (2 * int n - 2 - k)
      else nat k)"

definition stencil :: "(int \<times> int \<times> real) list \<Rightarrow> float_map \<Rightarrow> float_map" where
  "stencil taps g =
     map (\<lambda>i. map (\<lambda>j. sum_list (map (\<lambda>(di, dj, c).
                     c * g ! reflect101 (length g) (int i + di) ! reflect101 (length (g ! i)) (int j + dj))
                   taps))
              [0..<length (g ! i)])
         [0..<length g]"

definition sample_Laplacian :: "float_map \<Rightarrow> float_map" where
  "sample_Laplacian g = stencil [(-1, 0, 1), (1, 0, 1), (0, -1, 1), (0, 1, 1), (0, 0, -4)] g"

definition sample_GaussianBlur :: "float_map \<Rightarrow> real \<Rightarrow> float_map" where
  "sample_GaussianBlur g sigma =
     stencil [(-1, -1, 1 / 16), (-1, 0, 2 / 16), (-1, 1, 1 / 16),
              (0, -1, 2 / 16), (0, 0, 4 / 16), (0, 1, 2 / 16),
              (1, -1, 1 / 16), (1, 0, 2 / 16), (1, 1, 1 / 16)] g"

definition sample_normalize :: "float_map \<Rightarrow> real \<Rightarrow> real \<Rightarrow> norm_type \<Rightarrow> float_map" where
  "sample_normalize g alpha beta nt =
     (if nt = NORM_MINMAX then
        let smin = array_min (concat g);
            smax = array_max (concat g);
            dmin = min alpha beta;
            dmax = max alpha beta;
            scale = (dmax - dmin) * (if smax - smin > 1 / 2 ^ 52 then 1 / (smax - smin) else 0)
        in map (map (\<lambda>v. (v - smin) * scale + dmin)) g
      else g)"

definition sample_ORB :: "nat \<Rightarrow> gray_image \<Rightarrow> KeyPoint list \<times> descriptors option" where
  "sample_ORB nfeatures gray =
     (if concat gray = [] then ([], None)
      else (map (\<lambda>k. \<lparr>pt = (real k, real (2 * k))\<rparr>) [0..<min nfeatures 13],
            Some (map (\<lambda>k. [word_of_nat k]) [0..<min nfeatures 13])))"

definition sample_match :: "norm_type \<Rightarrow> bool \<Rightarrow> descriptors \<Rightarrow> descriptors \<Rightarrow> DMatch list" where
  "sample_match nt cross_check d1 d2 =
     map (\<lambda>k. \<lparr>queryIdx = int k, trainIdx = int k, distance = real ((k * 5) mod 7)\<rparr>)
         [0..<min (length d1) (length d2)]"

definition sample_findHomography ::
  "(real \<times> real) list \<Rightarrow> (real \<times> real) list \<Rightarrow> homography_method \<Rightarrow> real \<Rightarrow> homography option" where
  "sample_findHomography src dst method threshold =
     (if length src = length dst \<and> 4 \<le> length src then Some [[1, 0, 0], [0, 1, 0], [0, 0, 1]] else None)"

definition sample_warpPerspective :: "image \<Rightarrow> homography \<Rightarrow> nat \<times> nat \<Rightarrow> image" where
  "sample_warpPerspective img H dsize =
     map (\<lambda>i. map (\<lambda>j. if i < length img \<and> j < length (img ! i) then img ! i ! j else (0, 0, 0))
                   [0..<fst dsize])
         [0..<snd dsize]"

definition sample_cv2 :: cv2 where
  "sample_cv2 =
     \<lparr> cvtColor_BGR2GRAY = sample_cvtColor,
       Laplacian_CV_32F = sample_Laplacian,
       GaussianBlur = sample_GaussianBlur,
       normalize = sample_normalize,
       ORB_detectAndCompute = sample_ORB,
       BFMatcher_match = sample_match,
       findHomography = sample_findHomography,
       warpPerspective = sample_warpPerspective \<rparr>"

definition sample_image :: image where
  "sample_image =
     [[(10, 20, 30), (40, 50, 60), (15, 25, 35)],
      [(70, 80, 90), (200, 110, 120), (60, 70, 80)],
      [(20, 30, 40), (90, 100, 110), (240, 250, 255)]]"

definition sample_image' :: image where
  "sample_image' =
     [[(12, 22, 28), (40, 55, 60), (30, 30, 30)],
      [(70, 80, 95), (190, 100, 130), (80, 80, 80)],
      [(25, 25, 25), (100, 100, 100), (0, 0, 0)]]"

text \<open>Two images of one colour each, 2 by 2 pixels: black and white.\<close>

definition black_image :: image where
  "black_image = [[(0, 0, 0), (0, 0, 0)], [(0, 0, 0), (0, 0, 0)]]"

definition white_image :: image where
  "white_image = [[(255, 255, 255), (255, 255, 255)], [(255, 255, 255), (255, 255, 255)]]"

section \<open>Properties of render\_node\_overlay.py\<close>

subsection \<open>Auxiliary facts\<close>

lemma compute_transform_cases:
  assumes "nodes \<noteq> []"
  shows "compute_transform nodes w h m mode =
    (if real_of_int w - 2 * m \<le> 0 \<or> real_of_int h - 2 * m \<le> 0 then Inl (ValueError margin_msg)
     else if mode = ''raw'' then Inr (1, 1, 0, 0)
     else if array_max (map pos_x nodes) - array_min (map pos_x nodes) = 0
           \<or> array_max (map pos_y nodes) - array_min (map pos_y nodes) = 0 then Inl ZeroDivisionError
     else if mode = ''stretch'' then
       Inr ((real_of_int w - 2 * m) / (array_max (map pos_x nodes) - array_min (map pos_x nodes)),
            (real_of_int h - 2 * m) / (array_max (map pos_y nodes) - array_min (map pos_y nodes)),
            m - (real_of_int w - 2 * m) / (array_max (map pos_x nodes) - array_min (map pos_x nodes)) * array_min (map pos_x nodes),
            m - (real_of_int h - 2 * m) / (array_max (map pos_y nodes) - array_min (map pos_y nodes)) * array_min (map pos_y nodes))
     else (let s = min ((real_of_int w - 2 * m) / (array_max (map pos_x nodes) - array_min (map pos_x nodes)))
                       ((real_of_int h - 2 * m) / (array_max (map pos_y nodes) - array_min (map pos_y nodes)))
           in Inr (s, s,
             (real_of_int w - s * (array_max (map pos_x nodes) - array_min (map pos_x nodes))) / 2 - s * array_min (map pos_x nodes),
             (real_of_int h - s * (array_max (map pos_y nodes) - array_min (map pos_y nodes))) / 2 - s * array_min (map pos_y nodes))))"
proof -
  define sw where "sw = array_max (map pos_x nodes) - array_min (map pos_x nodes)"
  define sh where "sh = array_max (map pos_y nodes) - array_min (map pos_y nodes)"
  define uw where "uw = real_of_int w - 2 * m"
  define uh where "uh = real_of_int h - 2 * m"
  have "compute_transform nodes w h m mode =
    (if uw \<le> 0 \<or> uh \<le> 0 then Inl (ValueError margin_msg)
     else if mode = ''raw'' then Inr (1, 1, 0, 0)
     else if mode = ''stretch'' then
       (if sw = 0 \<or> sh = 0 then Inl ZeroDivisionError
        else Inr (uw / sw, uh / sh, m - uw / sw * array_min (map pos_x nodes),
                  m - uh / sh * array_min (map pos_y nodes)))
     else
       (if sw = 0 \<or> sh = 0 then Inl ZeroDivisionError
        else Inr (min (uw / sw) (uh / sh), min (uw / sw) (uh / sh),
               (real_of_int w - min (uw / sw) (uh / sh) * sw) / 2 - min (uw / sw) (uh / sh) * array_min (map pos_x nodes),
               (real_of_int h - min (uw / sw) (uh / sh) * sh) / 2 - min (uw / sw) (uh / sh) * array_min (map pos_y nodes))))"
    unfolding compute_transform_def Let_def sw_def sh_def uw_def uh_def
    using assms by (simp only: if_False)
  also have "\<dots> =
    (if uw \<le> 0 \<or> uh \<le> 0 then Inl (ValueError margin_msg)
     else if mode = ''raw'' then Inr (1, 1, 0, 0)
     else if sw = 0 \<or> sh = 0 then Inl ZeroDivisionError
     else if mode = ''stretch'' then
        Inr (uw / sw, uh / sh, m - uw / sw * array_min (map pos_x nodes),
                  m - uh / sh * array_min (map pos_y nodes))
     else Inr (min (uw / sw) (uh / sh), min (uw / sw) (uh / sh),
               (real_of_int w - min (uw / sw) (uh / sh) * sw) / 2 - min (uw / sw) (uh / sh) * array_min (map pos_x nodes),
               (real_of_int h - min (uw / sw) (uh / sh) * sh) / 2 - min (uw / sw) (uh / sh) * array_min (map pos_y nodes)))"
    by (cases "uw \<le> 0 \<or> uh \<le> 0"; cases "mode = ''raw''"; cases "mode = ''stretch''"; cases "sw = 0 \<or> sh = 0")
       simp_all
  finally show ?thesis
    unfolding Let_def sw_def sh_def uw_def uh_def .
qed


lemma array_min_Min: "xs \<noteq> [] \<Longrightarrow> array_min xs = Min (set xs)"
proof (cases xs)
  case (Cons a as)
  show ?thesis unfolding Cons array_min_def list.sel by (rule Min.set_eq_fold [symmetric])
qed simp

lemma array_max_Max: "xs \<noteq> [] \<Longrightarrow> array_max xs = Max (set xs)"
proof (cases xs)
  case (Cons a as)
  show ?thesis unfolding Cons array_max_def list.sel by (rule Max.set_eq_fold [symmetric])
qed simp

lemma compute_transform_empty:
  "compute_transform [] w h m mode = Inl (ValueError empty_reduction_msg)"
  by (simp add: compute_transform_def)

lemma compute_transform_degenerate:
  "nodes \<noteq> [] \<Longrightarrow> real_of_int w - 2 * m \<le> 0 \<or> real_of_int h - 2 * m \<le> 0 \<Longrightarrow>
   compute_transform nodes w h m mode = Inl (ValueError margin_msg)"
  by (simp add: compute_transform_cases)

lemma compute_transform_raw_ok:
  "nodes \<noteq> [] \<Longrightarrow> \<not> (real_of_int w - 2 * m \<le> 0 \<or> real_of_int h - 2 * m \<le> 0) \<Longrightarrow>
   compute_transform nodes w h m ''raw'' = Inr (1, 1, 0, 0)"
  by (simp add: compute_transform_cases)

lemma compute_transform_zero_extent:
  "nodes \<noteq> [] \<Longrightarrow> \<not> (real_of_int w - 2 * m \<le> 0 \<or> real_of_int h - 2 * m \<le> 0) \<Longrightarrow>
   mode \<noteq> ''raw'' \<Longrightarrow>
   array_max (map pos_x nodes) - array_min (map pos_x nodes) = 0
     \<or> array_max (map pos_y nodes) - array_min (map pos_y nodes) = 0 \<Longrightarrow>
   compute_transform nodes w h m mode = Inl ZeroDivisionError"
  by (simp add: compute_transform_cases)

lemma compute_transform_returns:
  assumes "nodes \<noteq> []" "\<not> (real_of_int w - 2 * m \<le> 0 \<or> real_of_int h - 2 * m \<le> 0)"
    and "mode = ''raw'' \<or>
         (array_max (map pos_x nodes) - array_min (map pos_x nodes) \<noteq> 0 \<and>
          array_max (map pos_y nodes) - array_min (map pos_y nodes) \<noteq> 0)"
  shows "\<exists>t. compute_transform nodes w h m mode = Inr t"
proof (cases "mode = ''raw''")
  case True
  with assms(1,2) show ?thesis by (simp add: compute_transform_raw_ok)
next
  case False
  with assms(3) have ne: "\<not> (array_max (map pos_x nodes) - array_min (map pos_x nodes) = 0
           \<or> array_max (map pos_y nodes) - array_min (map pos_y nodes) = 0)" by blast
  show ?thesis
  proof (cases "mode = ''stretch''")
    case True
    show ?thesis
      using assms(1,2) False ne True by (simp add: compute_transform_cases)
  next
    case ns: False
    show ?thesis
      using assms(1,2) False ne ns by (simp add: compute_transform_cases Let_def)
  qed
qed

lemma array_min_pos: "nodes \<noteq> [] \<Longrightarrow> array_min (map f nodes) = Min (f ` set nodes)"
  by (simp add: array_min_Min)

lemma array_max_pos: "nodes \<noteq> [] \<Longrightarrow> array_max (map f nodes) = Max (f ` set nodes)"
  by (simp add: array_max_Max)

lemma transform_nodes_map:
  "transform_nodes ns sx sy ox oy =
     map (\<lambda>n. \<lparr>node_id = node_id n, pos_x = pos_x n * sx + ox, pos_y = pos_y n * sy + oy,
                  edges = edges n\<rparr>) ns"
  by (induction ns) simp_all

subsection \<open>C7: the uniform fit on nodes whose x coordinates span 0 to 100\<close>

text \<open>
  C7 as stated (scale 10 and the two boundary images for every node set whose x
  coordinates span exactly 0 to 100, width 1000, margin 0, uniform mode) fails: the
  uniform mode takes the smaller of the two axis scales and centres the other axis. With
  y coordinates spanning 0 to 100 and height 500 the scale is 5 and the x coordinates 0
  and 100 land on 250 and 750.
\<close>

theorem compute_transform_uniform_counterexample:
  "compute_transform [\<lparr>node_id = 1, pos_x = 0, pos_y = 0, edges = ([] :: unit list)\<rparr>,
                      \<lparr>node_id = 2, pos_x = 100, pos_y = 100, edges = []\<rparr>] 1000 500 0 ''uniform''
     = Inr (5, 5, 250, 0) \<and>
   map pos_x (transform_nodes [\<lparr>node_id = 1, pos_x = 0, pos_y = 0, edges = ([] :: unit list)\<rparr>,
                      \<lparr>node_id = 2, pos_x = 100, pos_y = 100, edges = []\<rparr>] 5 5 250 0) = [250, 750]"
  by (simp add: compute_transform_def array_min_def array_max_def Let_def)

text \<open>
  C7, amended: when moreover the y extent is positive and the x axis is the binding one
  (scale 10 times the y extent fits into the height), the scale is
  \<open>usable_width / 100 = 10\<close>, the x offset is 0, and a node with x = 0 is mapped to
  pixel x = 0 (the margin) and a node with x = 100 to pixel x = 1000 (width minus margin).
\<close>

theorem compute_transform_uniform_x_binding:
  assumes nonempty: "nodes \<noteq> []"
    and min_x: "Min (pos_x ` set nodes) = 0"
    and max_x: "Max (pos_x ` set nodes) = 100"
    and src_height: "Min (pos_y ` set nodes) < Max (pos_y ` set nodes)"
    and binding: "(1000 / 100) * (Max (pos_y ` set nodes) - Min (pos_y ` set nodes)) \<le> real_of_int height"
  shows "compute_transform nodes 1000 height 0 ''uniform'' =
           Inr ((1000 - 2 * 0) / 100, (1000 - 2 * 0) / 100, 0,
                (real_of_int height - 10 * (Max (pos_y ` set nodes) - Min (pos_y ` set nodes))) / 2
                  - 10 * Min (pos_y ` set nodes)) \<and>
         (1000 - 2 * 0) / 100 = (10 :: real) \<and>
         (\<forall>oy. \<forall>i < length nodes.
            (pos_x (nodes ! i) = 0 \<longrightarrow> pos_x (transform_nodes nodes 10 10 0 oy ! i) = 0) \<and>
            (pos_x (nodes ! i) = 100 \<longrightarrow> pos_x (transform_nodes nodes 10 10 0 oy ! i) = 1000 - 0))"
proof -
  define sh where "sh = Max (pos_y ` set nodes) - Min (pos_y ` set nodes)"
  have sh_pos: "0 < sh" using src_height by (simp add: sh_def)
  have "10 * sh \<le> real_of_int height" using binding by (simp add: sh_def)
  then have quot: "10 \<le> real_of_int height / sh"
    using sh_pos by (simp add: pos_le_divide_eq)
  have h_pos: "0 < real_of_int height"
    using \<open>10 * sh \<le> real_of_int height\<close> sh_pos by linarith
  have ax: "array_min (map pos_x nodes) = 0" "array_max (map pos_x nodes) = 100"
    using nonempty min_x max_x by (simp_all add: array_min_pos array_max_pos)
  have ay: "array_min (map pos_y nodes) = Min (pos_y ` set nodes)"
    "array_max (map pos_y nodes) = Max (pos_y ` set nodes)"
    using nonempty by (simp_all add: array_min_pos array_max_pos)
  have sh_ne: "sh \<noteq> 0" using sh_pos by simp
  have m: "min (10::real) (real_of_int height / sh) = 10"
    using quot by simp
  have "compute_transform nodes 1000 height 0 ''uniform'' =
          Inr (10, 10, 0, (real_of_int height - 10 * sh) / 2 - 10 * Min (pos_y ` set nodes))"
    using nonempty h_pos sh_ne
    by (simp add: compute_transform_cases ax ay sh_def [symmetric] m Let_def)
  moreover have "\<forall>oy. \<forall>i < length nodes.
            (pos_x (nodes ! i) = 0 \<longrightarrow> pos_x (transform_nodes nodes 10 10 0 oy ! i) = 0) \<and>
            (pos_x (nodes ! i) = 100 \<longrightarrow> pos_x (transform_nodes nodes 10 10 0 oy ! i) = 1000 - 0)"
  proof (intro allI impI)
    fix oy i assume i: "i < length nodes"
    have "pos_x (transform_nodes nodes 10 10 0 oy ! i) = pos_x (nodes ! i) * 10"
      using i by (simp add: transform_nodes_map)
    then show "(pos_x (nodes ! i) = 0 \<longrightarrow> pos_x (transform_nodes nodes 10 10 0 oy ! i) = 0) \<and>
            (pos_x (nodes ! i) = 100 \<longrightarrow> pos_x (transform_nodes nodes 10 10 0 oy ! i) = 1000 - 0)"
      by simp
  qed
  ultimately show ?thesis by (simp add: sh_def)
qed

theorem compute_transform_uniform_x_binding_witness:
  "compute_transform [\<lparr>node_id = 1, pos_x = 0, pos_y = 0, edges = ([] :: unit list)\<rparr>,
                      \<lparr>node_id = 2, pos_x = 100, pos_y = 50, edges = []\<rparr>] 1000 600 0 ''uniform''
     = Inr (10, 10, 0, 50) \<and>
   pos_x (transform_nodes [\<lparr>node_id = 1, pos_x = 0, pos_y = 0, edges = ([] :: unit list)\<rparr>,
                      \<lparr>node_id = 2, pos_x = 100, pos_y = 50, edges = []\<rparr>] 10 10 0 50 ! 0) = 0 \<and>
   pos_x (transform_nodes [\<lparr>node_id = 1, pos_x = 0, pos_y = 0, edges = ([] :: unit list)\<rparr>,
                      \<lparr>node_id = 2, pos_x = 100, pos_y = 50, edges = []\<rparr>] 10 10 0 50 ! 1) = 1000"
proof -
  let ?ns = "[\<lparr>node_id = 1, pos_x = 0, pos_y = 0, edges = ([] :: unit list)\<rparr>,
              \<lparr>node_id = 2, pos_x = 100, pos_y = 50, edges = []\<rparr>]"
  have h1: "?ns \<noteq> []" by simp
  have h2: "Min (pos_x ` set ?ns) = 0" by simp
  have h3: "Max (pos_x ` set ?ns) = 100" by simp
  have h4: "Min (pos_y ` set ?ns) < Max (pos_y ` set ?ns)" by simp
  have h5: "(1000 / 100) * (Max (pos_y ` set ?ns) - Min (pos_y ` set ?ns)) \<le> real_of_int 600" by simp
  note t = compute_transform_uniform_x_binding [OF h1 h2 h3 h4 h5]
  from t have a: "compute_transform ?ns 1000 600 0 ''uniform'' = Inr (10, 10, 0, 50)" by simp
  from t have "\<forall>oy. \<forall>i < length ?ns.
            (pos_x (?ns ! i) = 0 \<longrightarrow> pos_x (transform_nodes ?ns 10 10 0 oy ! i) = 0) \<and>
            (pos_x (?ns ! i) = 100 \<longrightarrow> pos_x (transform_nodes ?ns 10 10 0 oy ! i) = 1000 - 0)"
    by blast
  then have b: "\<forall>i < length ?ns.
            (pos_x (?ns ! i) = 0 \<longrightarrow> pos_x (transform_nodes ?ns 10 10 0 50 ! i) = 0) \<and>
            (pos_x (?ns ! i) = 100 \<longrightarrow> pos_x (transform_nodes ?ns 10 10 0 50 ! i) = 1000 - 0)"
    by blast
  from b [rule_format, of 0] have c: "pos_x (transform_nodes ?ns 10 10 0 50 ! 0) = 0" by simp
  from b [rule_format, of 1] have d: "pos_x (transform_nodes ?ns 10 10 0 50 ! 1) = 1000" by simp
  from a c d show ?thesis by blast
qed

subsection \<open>C8: when compute\_transform raises\<close>

text \<open>
  C8 as stated (a ValueError exactly when the margin is degenerate, a transform
  otherwise) fails on two inputs whose margin is not degenerate: a single node in
  uniform mode has zero extent, and the quotient raises ZeroDivisionError; an empty node
  list makes the reduction raise ValueError before the margin is looked at.
\<close>

theorem compute_transform_margin_counterexample:
  "compute_transform [\<lparr>node_id = 1, pos_x = 5, pos_y = 7, edges = ([] :: unit list)\<rparr>] 1000 800 12 ''uniform''
     = Inl ZeroDivisionError \<and>
   compute_transform ([] :: unit Node list) 1000 800 12 ''uniform'' = Inl (ValueError empty_reduction_msg) \<and>
   \<not> (real_of_int 1000 - 2 * 12 \<le> (0::real) \<or> real_of_int 800 - 2 * 12 \<le> (0::real))"
  by (simp add: compute_transform_def array_min_def array_max_def)

text \<open>
  C8, amended: for a non-empty node list, compute\_transform raises a ValueError (the one
  with the margin message) exactly when \<open>width - 2 * margin \<le> 0\<close> or
  \<open>height - 2 * margin \<le> 0\<close>; when the margin is not degenerate it returns a transform
  provided the mode is raw or both extents of the node coordinates are non-zero.
\<close>

theorem compute_transform_margin:
  assumes "nodes \<noteq> []"
  shows "((\<exists>msg. compute_transform nodes w h m mode = Inl (ValueError msg))
            \<longleftrightarrow> (real_of_int w - 2 * m \<le> 0 \<or> real_of_int h - 2 * m \<le> 0)) \<and>
         (compute_transform nodes w h m mode = Inl (ValueError margin_msg)
            \<longleftrightarrow> (real_of_int w - 2 * m \<le> 0 \<or> real_of_int h - 2 * m \<le> 0)) \<and>
         (\<not> (real_of_int w - 2 * m \<le> 0 \<or> real_of_int h - 2 * m \<le> 0) \<and>
          (mode = ''raw'' \<or>
             (array_max (map pos_x nodes) - array_min (map pos_x nodes) \<noteq> 0 \<and>
              array_max (map pos_y nodes) - array_min (map pos_y nodes) \<noteq> 0))
          \<longrightarrow> (\<exists>t. compute_transform nodes w h m mode = Inr t))"
proof (cases "real_of_int w - 2 * m \<le> 0 \<or> real_of_int h - 2 * m \<le> 0")
  case True
  with assms show ?thesis by (simp add: compute_transform_degenerate)
next
  case ok: False
  have no_value_error: "\<not> (\<exists>msg. compute_transform nodes w h m mode = Inl (ValueError msg))"
  proof (cases "mode = ''raw'' \<or>
             (array_max (map pos_x nodes) - array_min (map pos_x nodes) \<noteq> 0 \<and>
              array_max (map pos_y nodes) - array_min (map pos_y nodes) \<noteq> 0)")
    case True
    from compute_transform_returns [OF assms ok True] show ?thesis by auto
  next
    case False
    then have "mode \<noteq> ''raw''"
      and "array_max (map pos_x nodes) - array_min (map pos_x nodes) = 0
         \<or> array_max (map pos_y nodes) - array_min (map pos_y nodes) = 0" by auto
    from compute_transform_zero_extent [OF assms ok this] show ?thesis by simp
  qed
  from no_value_error have "compute_transform nodes w h m mode \<noteq> Inl (ValueError margin_msg)"
    by blast
  with ok no_value_error compute_transform_returns [OF assms ok] show ?thesis by blast
qed

theorem compute_transform_margin_witness:
  "compute_transform [\<lparr>node_id = 1, pos_x = 0, pos_y = 0, edges = ([] :: unit list)\<rparr>,
                      \<lparr>node_id = 2, pos_x = 4, pos_y = 2, edges = []\<rparr>] 100 50 25 ''stretch''
     = Inl (ValueError margin_msg) \<and>
   (\<exists>t. compute_transform [\<lparr>node_id = 1, pos_x = 0, pos_y = 0, edges = ([] :: unit list)\<rparr>,
                      \<lparr>node_id = 2, pos_x = 4, pos_y = 2, edges = []\<rparr>] 100 50 5 ''stretch'' = Inr t)"
  using compute_transform_margin [of "[\<lparr>node_id = 1, pos_x = 0, pos_y = 0, edges = ([] :: unit list)\<rparr>,
                      \<lparr>node_id = 2, pos_x = 4, pos_y = 2, edges = []\<rparr>]" 100 50 25 "''stretch''"]
        compute_transform_margin [of "[\<lparr>node_id = 1, pos_x = 0, pos_y = 0, edges = ([] :: unit list)\<rparr>,
                      \<lparr>node_id = 2, pos_x = 4, pos_y = 2, edges = []\<rparr>]" 100 50 5 "''stretch''"]
  by (simp add: array_min_def array_max_def)

subsection \<open>C9: the frame of transform\_nodes\<close>

text \<open>
  C9: transform\_nodes keeps the length and the order of the list, the node\_id and the
  edges of every node, and replaces x by \<open>x * scale_x + offset_x\<close> and y by
  \<open>y * scale_y + offset_y\<close>.
\<close>

theorem transform_nodes_frame:
  "length (transform_nodes ns sx sy ox oy) = length ns \<and>
   map node_id (transform_nodes ns sx sy ox oy) = map node_id ns \<and>
   map edges (transform_nodes ns sx sy ox oy) = map edges ns \<and>
   map pos_x (transform_nodes ns sx sy ox oy) = map (\<lambda>n. pos_x n * sx + ox) ns \<and>
   map pos_y (transform_nodes ns sx sy ox oy) = map (\<lambda>n. pos_y n * sy + oy) ns"
  by (induction ns) simp_all

subsection \<open>C10: the raw mode\<close>

text \<open>
  C10: in mode raw every transform that compute\_transform returns is the identity
  \<open>(1, 1, 0, 0)\<close>, a degenerate margin still makes it raise a ValueError, and for a
  non-empty node list these are the only two outcomes: the margin ValueError when
  \<open>width - 2 * margin \<le> 0\<close> or \<open>height - 2 * margin \<le> 0\<close>, the identity otherwise.
\<close>

theorem compute_transform_raw:
  "(\<forall>t. compute_transform nodes w h m ''raw'' = Inr t \<longrightarrow> t = (1, 1, 0, 0)) \<and>
   (real_of_int w - 2 * m \<le> 0 \<or> real_of_int h - 2 * m \<le> 0 \<longrightarrow>
      (\<exists>msg. compute_transform nodes w h m ''raw'' = Inl (ValueError msg))) \<and>
   (nodes \<noteq> [] \<and> (real_of_int w - 2 * m \<le> 0 \<or> real_of_int h - 2 * m \<le> 0) \<longrightarrow>
      compute_transform nodes w h m ''raw'' = Inl (ValueError margin_msg)) \<and>
   (nodes \<noteq> [] \<and> \<not> (real_of_int w - 2 * m \<le> 0 \<or> real_of_int h - 2 * m \<le> 0) \<longrightarrow>
      compute_transform nodes w h m ''raw'' = Inr (1, 1, 0, 0))"
proof (cases "nodes = []")
  case True
  then show ?thesis by (simp add: compute_transform_empty)
next
  case ne: False
  show ?thesis
  proof (cases "real_of_int w - 2 * m \<le> 0 \<or> real_of_int h - 2 * m \<le> 0")
    case True
    with ne show ?thesis by (simp add: compute_transform_degenerate)
  next
    case False
    with ne show ?thesis by (simp add: compute_transform_raw_ok)
  qed
qed

theorem compute_transform_raw_witness:
  "compute_transform [\<lparr>node_id = 7, pos_x = 3, pos_y = 4, edges = ([] :: unit list)\<rparr>] 100 100 60 ''raw''
     = Inl (ValueError margin_msg) \<and>
   compute_transform [\<lparr>node_id = 7, pos_x = 3, pos_y = 4, edges = ([] :: unit list)\<rparr>] 100 100 12 ''raw''
     = Inr (1, 1, 0, 0)"
proof -
  let ?ns = "[\<lparr>node_id = 7, pos_x = 3, pos_y = 4, edges = ([] :: unit list)\<rparr>]"
  have degenerate: "?ns \<noteq> [] \<and> (real_of_int 100 - 2 * 60 \<le> (0::real) \<or> real_of_int 100 - 2 * 60 \<le> (0::real))"
    by simp
  have usable: "?ns \<noteq> [] \<and> \<not> (real_of_int 100 - 2 * 12 \<le> (0::real) \<or> real_of_int 100 - 2 * 12 \<le> (0::real))"
    by simp
  from compute_transform_raw [of ?ns 100 100 60] degenerate
  have a: "compute_transform ?ns 100 100 60 ''raw'' = Inl (ValueError margin_msg)" by blast
  from compute_transform_raw [of ?ns 100 100 12] usable
  have b: "compute_transform ?ns 100 100 12 ''raw'' = Inr (1, 1, 0, 0)" by blast
  from a b show ?thesis by (rule conjI)
qed

section \<open>Properties of combine\_board\_images.py\<close>

subsection \<open>Arrays\<close>

lemma dims_length: "dims g h w \<Longrightarrow> length g = h"
  by (simp add: dims_def)

lemma dims_row: "dims g h w \<Longrightarrow> i < h \<Longrightarrow> length (g ! i) = w"
  by (simp add: dims_def list_all_length)

lemma dims_map [simp]: "dims (map (map f) g) h w = dims g h w"
  by (simp add: dims_def list_all_length)

lemma dims_map_length: "dims g h w \<Longrightarrow> map length g = replicate h w"
  by (auto simp: dims_def list_all_length intro: nth_equalityI)

lemma dims_map2: "dims a h w \<Longrightarrow> dims b h w \<Longrightarrow> dims (map2 (map2 f) a b) h w"
  by (simp add: dims_def list_all_length)

lemma map2_map2_nth:
  "dims a h w \<Longrightarrow> dims b h w \<Longrightarrow> i < h \<Longrightarrow> j < w \<Longrightarrow>
   map2 (map2 f) a b ! i ! j = f (a ! i ! j) (b ! i ! j)"
  by (simp add: dims_def list_all_length)

lemma map_map_nth:
  "dims a h w \<Longrightarrow> i < h \<Longrightarrow> j < w \<Longrightarrow> map (map f) a ! i ! j = f (a ! i ! j)"
  by (simp add: dims_def list_all_length)

lemma elementwise_dims:
  "dims a h w \<Longrightarrow> dims b h w \<Longrightarrow> elementwise f a b = Inr (map2 (map2 f) a b)"
  by (simp add: elementwise_def dims_map_length)

lemma list_all2_nth:
  "dims g h w \<Longrightarrow> list_all (list_all P) g \<Longrightarrow> i < h \<Longrightarrow> j < w \<Longrightarrow> P (g ! i ! j)"
  by (simp add: dims_def list_all_length)

lemma dims_eqI:
  assumes a: "dims a h w" and b: "dims b h w"
    and nth: "\<And>i j. i < h \<Longrightarrow> j < w \<Longrightarrow> a ! i ! j = b ! i ! j"
  shows "a = b"
proof (rule nth_equalityI)
  show "length a = length b" using a b by (simp add: dims_length)
next
  fix i assume "i < length a"
  then have i: "i < h" using a by (simp add: dims_length)
  show "a ! i = b ! i"
  proof (rule nth_equalityI)
    show "length (a ! i) = length (b ! i)" using a b i by (simp add: dims_row)
  next
    fix j assume "j < length (a ! i)"
    then have "j < w" using a i by (simp add: dims_row)
    with i show "a ! i ! j = b ! i ! j" by (rule nth)
  qed
qed

subsection \<open>The contract of the OpenCV routines\<close>

lemma contract_cvtColor:
  "cv2_contract cv \<Longrightarrow> 0 < h \<Longrightarrow> 0 < w \<Longrightarrow> dims img h w \<Longrightarrow> dims (cvtColor_BGR2GRAY cv img) h w"
  unfolding cv2_contract_def by (elim conjE allE [of _ img] allE [of _ h] allE [of _ w]) simp

lemma contract_Laplacian:
  "cv2_contract cv \<Longrightarrow> 0 < h \<Longrightarrow> 0 < w \<Longrightarrow> dims g h w \<Longrightarrow> dims (Laplacian_CV_32F cv g) h w"
  unfolding cv2_contract_def by (elim conjE allE [of _ g] allE [of _ h] allE [of _ w]) simp

lemma contract_GaussianBlur:
  "cv2_contract cv \<Longrightarrow> 0 < h \<Longrightarrow> 0 < w \<Longrightarrow> dims g h w \<Longrightarrow> 0 < sigma \<Longrightarrow>
   dims (GaussianBlur cv g sigma) h w"
  unfolding cv2_contract_def
  by (elim conjE allE [of _ g] allE [of _ h] allE [of _ w] allE [of _ sigma]) simp

lemma contract_normalize:
  "cv2_contract cv \<Longrightarrow> 0 < h \<Longrightarrow> 0 < w \<Longrightarrow> dims g h w \<Longrightarrow> alpha \<le> beta \<Longrightarrow>
   dims (normalize cv g alpha beta NORM_MINMAX) h w \<and>
   list_all (list_all (\<lambda>v. alpha \<le> v \<and> v \<le> beta)) (normalize cv g alpha beta NORM_MINMAX)"
  unfolding cv2_contract_def
  by (elim conjE allE [of _ g] allE [of _ h] allE [of _ w] allE [of _ alpha] allE [of _ beta]) simp

subsection \<open>The sample instance meets the contract\<close>

lemma dims_stencil: "dims g h w \<Longrightarrow> dims (stencil taps g) h w"
  by (simp add: dims_def stencil_def list_all_length)

lemma array_min_le: "v \<in> set vs \<Longrightarrow> array_min vs \<le> v"
proof -
  assume v: "v \<in> set vs"
  then have "vs \<noteq> []" by auto
  then have "array_min vs = Min (set vs)" by (rule array_min_Min)
  with v show ?thesis by simp
qed

lemma array_max_ge: "v \<in> set vs \<Longrightarrow> v \<le> array_max vs"
proof -
  assume v: "v \<in> set vs"
  then have "vs \<noteq> []" by auto
  then have "array_max vs = Max (set vs)" by (rule array_max_Max)
  with v show ?thesis by simp
qed

lemma minmax_scaled:
  fixes v smin smax alpha beta :: real
  assumes "smin \<le> v" "v \<le> smax" "alpha \<le> beta"
  shows "alpha \<le> (v - smin) * ((beta - alpha) * (if smax - smin > 1 / 2 ^ 52 then 1 / (smax - smin) else 0)) + alpha"
    and "(v - smin) * ((beta - alpha) * (if smax - smin > 1 / 2 ^ 52 then 1 / (smax - smin) else 0)) + alpha \<le> beta"
proof -
  define t where "t = (v - smin) * (if smax - smin > 1 / 2 ^ 52 then 1 / (smax - smin) else 0)"
  have t: "0 \<le> t \<and> t \<le> 1"
  proof (cases "smax - smin > 1 / 2 ^ 52")
    case True
    moreover have "(0::real) < 1 / 2 ^ 52" by simp
    ultimately have pos: "0 < smax - smin" by linarith
    have "t = (v - smin) / (smax - smin)" using True by (simp add: t_def)
    moreover have "0 \<le> (v - smin) / (smax - smin)" using assms pos by simp
    moreover have "(v - smin) / (smax - smin) \<le> 1" using assms pos by (simp add: divide_le_eq)
    ultimately show ?thesis by simp
  next
    case False
    then show ?thesis by (simp add: t_def)
  qed
  have eq: "(v - smin) * ((beta - alpha) * (if smax - smin > 1 / 2 ^ 52 then 1 / (smax - smin) else 0)) + alpha
            = t * (beta - alpha) + alpha"
    by (simp add: t_def algebra_simps)
  have d: "0 \<le> beta - alpha" using assms by simp
  from t d have "0 \<le> t * (beta - alpha)" by simp
  then show "alpha \<le> (v - smin) * ((beta - alpha) * (if smax - smin > 1 / 2 ^ 52 then 1 / (smax - smin) else 0)) + alpha"
    unfolding eq by simp
  from t d have "t * (beta - alpha) \<le> 1 * (beta - alpha)" by (intro mult_right_mono) simp_all
  then show "(v - smin) * ((beta - alpha) * (if smax - smin > 1 / 2 ^ 52 then 1 / (smax - smin) else 0)) + alpha \<le> beta"
    unfolding eq by simp
qed

lemma sample_normalize_range:
  assumes "alpha \<le> beta"
  shows "list_all (list_all (\<lambda>v. alpha \<le> v \<and> v \<le> beta)) (sample_normalize g alpha beta NORM_MINMAX)"
proof -
  have "alpha \<le> (v - array_min (concat g)) * ((beta - alpha) *
            (if array_max (concat g) - array_min (concat g) > 1 / 2 ^ 52
             then 1 / (array_max (concat g) - array_min (concat g)) else 0)) + alpha \<and>
        (v - array_min (concat g)) * ((beta - alpha) *
            (if array_max (concat g) - array_min (concat g) > 1 / 2 ^ 52
             then 1 / (array_max (concat g) - array_min (concat g)) else 0)) + alpha \<le> beta"
    if "row \<in> set g" "v \<in> set row" for row v
  proof -
    from that have "v \<in> set (concat g)" by auto
    then have "array_min (concat g) \<le> v" "v \<le> array_max (concat g)"
      by (rule array_min_le, rule array_max_ge)
    from minmax_scaled [OF this assms] show ?thesis by (rule conjI)
  qed
  then show ?thesis
    using assms by (simp add: sample_normalize_def Let_def list_all_iff min_absorb1 max_absorb2)
qed

lemma sample_cv2_contract: "cv2_contract sample_cv2"
  unfolding cv2_contract_def
proof (intro conjI allI impI)
  fix img :: image and h w assume "0 < h \<and> 0 < w \<and> dims img h w"
  then show "dims (cvtColor_BGR2GRAY sample_cv2 img) h w"
    by (simp add: sample_cv2_def sample_cvtColor_def)
next
  fix g :: float_map and h w assume "0 < h \<and> 0 < w \<and> dims g h w"
  then show "dims (Laplacian_CV_32F sample_cv2 g) h w"
    by (simp add: sample_cv2_def sample_Laplacian_def dims_stencil)
next
  fix g :: float_map and h w and sigma :: real assume "0 < h \<and> 0 < w \<and> dims g h w \<and> 0 < sigma"
  then show "dims (GaussianBlur sample_cv2 g sigma) h w"
    by (simp add: sample_cv2_def sample_GaussianBlur_def dims_stencil)
next
  fix g :: float_map and h w and alpha beta :: real
  assume a: "0 < h \<and> 0 < w \<and> dims g h w \<and> alpha \<le> beta"
  then show "dims (normalize sample_cv2 g alpha beta NORM_MINMAX) h w"
    by (simp add: sample_cv2_def sample_normalize_def Let_def)
  from a have "alpha \<le> beta" by simp
  then show "list_all (list_all (\<lambda>v. alpha \<le> v \<and> v \<le> beta)) (normalize sample_cv2 g alpha beta NORM_MINMAX)"
    by (simp add: sample_cv2_def sample_normalize_range)
qed

lemma sample_image_dims: "dims sample_image 3 3" "dims sample_image' 3 3"
  by (simp_all add: dims_def sample_image_def sample_image'_def)

lemma sample_ORB_nonempty:
  "concat gray \<noteq> [] \<Longrightarrow>
   sample_ORB 5000 gray = (map (\<lambda>k. \<lparr>pt = (real k, real (2 * k))\<rparr>) [0..<13],
                          Some (map (\<lambda>k. [word_of_nat k]) [0..<13]))"
  by (simp add: sample_ORB_def)

subsection \<open>Auxiliary facts about the sharpness map and the blend\<close>

lemma sharpness_dims_range:
  assumes cv: "cv2_contract cv" and pos: "0 < h" "0 < w" and img: "dims img h w"
    and sigma: "0 < sigma"
  shows "dims (laplacian_sharpness cv img sigma) h w"
    and "i < h \<Longrightarrow> j < w \<Longrightarrow> 1 / 1000000 \<le> laplacian_sharpness cv img sigma ! i ! j"
    and "i < h \<Longrightarrow> j < w \<Longrightarrow> laplacian_sharpness cv img sigma ! i ! j \<le> 1 + 1 / 1000000"
proof -
  define gray where "gray = map (map (\<lambda>v. real (unat v) / 255)) (cvtColor_BGR2GRAY cv img)"
  define energy where "energy = map (map (\<lambda>v. v ^ 2)) (Laplacian_CV_32F cv gray)"
  define normalized where "normalized = normalize cv (GaussianBlur cv energy sigma) 0 1 NORM_MINMAX"
  have eq: "laplacian_sharpness cv img sigma = map (map (\<lambda>v. v + 1 / 1000000)) normalized"
    by (simp add: laplacian_sharpness_def Let_def gray_def energy_def normalized_def)
  from cv pos img have "dims (cvtColor_BGR2GRAY cv img) h w"
    by (rule contract_cvtColor)
  then have "dims gray h w" by (simp add: gray_def)
  with cv pos have "dims (Laplacian_CV_32F cv gray) h w"
    by (simp add: contract_Laplacian)
  then have "dims energy h w" by (simp add: energy_def)
  with cv pos sigma have blurred: "dims (GaussianBlur cv energy sigma) h w"
    by (simp add: contract_GaussianBlur)
  have "(0::real) \<le> 1" by simp
  from contract_normalize [OF cv pos blurred this]
  have n: "dims normalized h w"
    and r: "list_all (list_all (\<lambda>v. 0 \<le> v \<and> v \<le> 1)) normalized"
    unfolding normalized_def by simp_all
  from n show "dims (laplacian_sharpness cv img sigma) h w" by (simp add: eq)
  {
    assume ij: "i < h" "j < w"
    from list_all2_nth [OF n r ij] have "0 \<le> normalized ! i ! j \<and> normalized ! i ! j \<le> 1" .
    moreover have "laplacian_sharpness cv img sigma ! i ! j = normalized ! i ! j + 1 / 1000000"
      using n ij by (simp add: eq map_map_nth)
    ultimately have "1 / 1000000 \<le> laplacian_sharpness cv img sigma ! i ! j"
      and "laplacian_sharpness cv img sigma ! i ! j \<le> 1 + 1 / 1000000" by simp_all
  }
  then show "i < h \<Longrightarrow> j < w \<Longrightarrow> 1 / 1000000 \<le> laplacian_sharpness cv img sigma ! i ! j"
    and "i < h \<Longrightarrow> j < w \<Longrightarrow> laplacian_sharpness cv img sigma ! i ! j \<le> 1 + 1 / 1000000"
    by blast+
qed

lemma blend_weights_Inr:
  assumes cv: "cv2_contract cv" and pos: "0 < h" "0 < w"
    and p: "dims primary h w" and s: "dims secondary h w"
  obtains wp ws where "blend_weights cv primary secondary = Inr (wp, ws)"
    and "dims wp h w" and "dims ws h w"
    and "\<And>i j. i < h \<Longrightarrow> j < w \<Longrightarrow>
           wp ! i ! j = laplacian_sharpness cv primary (3 / 2) ! i ! j /
             (laplacian_sharpness cv primary (3 / 2) ! i ! j + laplacian_sharpness cv secondary (3 / 2) ! i ! j)"
    and "\<And>i j. i < h \<Longrightarrow> j < w \<Longrightarrow> ws ! i ! j = 1 - wp ! i ! j"
proof -
  define sp where "sp = laplacian_sharpness cv primary (3 / 2)"
  define ss where "ss = laplacian_sharpness cv secondary (3 / 2)"
  define den where "den = map2 (map2 (+)) sp ss"
  define wp where "wp = map2 (map2 (/)) sp den"
  define ws where "ws = map (map (\<lambda>w. 1 - w)) wp"
  have sigma: "(0::real) < 3 / 2" by simp
  have dsp: "dims sp h w" unfolding sp_def by (rule sharpness_dims_range(1) [OF cv pos p sigma])
  have dss: "dims ss h w" unfolding ss_def by (rule sharpness_dims_range(1) [OF cv pos s sigma])
  have dden: "dims den h w" unfolding den_def by (rule dims_map2 [OF dsp dss])
  have dwp: "dims wp h w" unfolding wp_def by (rule dims_map2 [OF dsp dden])
  have dws: "dims ws h w" unfolding ws_def using dwp by simp
  have e1: "elementwise (+) sp ss = Inr den"
    unfolding den_def by (rule elementwise_dims [OF dsp dss])
  have e2: "elementwise (/) sp den = Inr wp"
    unfolding wp_def by (rule elementwise_dims [OF dsp dden])
  have res: "blend_weights cv primary secondary = Inr (wp, ws)"
    unfolding blend_weights_def Let_def sp_def [symmetric] ss_def [symmetric]
    by (simp add: e1 e2 ws_def)
  have wp_nth: "wp ! i ! j = sp ! i ! j / (sp ! i ! j + ss ! i ! j)" if "i < h" "j < w" for i j
    using that by (simp add: wp_def den_def map2_map2_nth [OF dsp dden, unfolded den_def] map2_map2_nth [OF dsp dss])
  have ws_nth: "ws ! i ! j = 1 - wp ! i ! j" if "i < h" "j < w" for i j
    using that by (simp add: ws_def map_map_nth [OF dwp])
  show thesis
    by (rule that [OF res dwp dws]) (simp_all add: wp_nth [unfolded sp_def ss_def] ws_nth)
qed

lemma weight_bounds:
  fixes a b :: real
  assumes "0 < a" "0 < b"
  shows "0 < a / (a + b)" and "a / (a + b) < 1"
  using assms by simp_all

lemma blend_weights_props:
  assumes cv: "cv2_contract cv" and pos: "0 < h" "0 < w"
    and p: "dims primary h w" and s: "dims secondary h w"
  obtains wp ws where "blend_weights cv primary secondary = Inr (wp, ws)"
    and "dims wp h w" and "dims ws h w"
    and "\<And>i j. i < h \<Longrightarrow> j < w \<Longrightarrow>
           wp ! i ! j = laplacian_sharpness cv primary (3 / 2) ! i ! j /
             (laplacian_sharpness cv primary (3 / 2) ! i ! j + laplacian_sharpness cv secondary (3 / 2) ! i ! j)"
    and "\<And>i j. i < h \<Longrightarrow> j < w \<Longrightarrow> ws ! i ! j = 1 - wp ! i ! j"
    and "\<And>i j. i < h \<Longrightarrow> j < w \<Longrightarrow> 0 < wp ! i ! j \<and> wp ! i ! j < 1"
proof -
  from blend_weights_Inr [OF cv pos p s] obtain wp ws
    where res: "blend_weights cv primary secondary = Inr (wp, ws)"
      and d: "dims wp h w" "dims ws h w"
      and wp: "\<And>i j. i < h \<Longrightarrow> j < w \<Longrightarrow>
           wp ! i ! j = laplacian_sharpness cv primary (3 / 2) ! i ! j /
             (laplacian_sharpness cv primary (3 / 2) ! i ! j + laplacian_sharpness cv secondary (3 / 2) ! i ! j)"
      and ws: "\<And>i j. i < h \<Longrightarrow> j < w \<Longrightarrow> ws ! i ! j = 1 - wp ! i ! j"
    by blast
  have sigma: "(0::real) < 3 / 2" by simp
  have bounds: "0 < wp ! i ! j \<and> wp ! i ! j < 1" if ij: "i < h" "j < w" for i j
  proof -
    have "1 / 1000000 \<le> laplacian_sharpness cv primary (3 / 2) ! i ! j"
      by (rule sharpness_dims_range(2) [OF cv pos p sigma ij])
    then have a: "0 < laplacian_sharpness cv primary (3 / 2) ! i ! j" by simp
    have "1 / 1000000 \<le> laplacian_sharpness cv secondary (3 / 2) ! i ! j"
      by (rule sharpness_dims_range(2) [OF cv pos s sigma ij])
    then have b: "0 < laplacian_sharpness cv secondary (3 / 2) ! i ! j" by simp
    from weight_bounds [OF a b] show ?thesis by (simp add: wp [OF ij])
  qed
  show thesis by (rule that [OF res d wp ws bounds])
qed

lemma blend_images_Inr:
  assumes p: "dims primary h w" and s: "dims secondary h w"
    and dwp: "dims wp h w" and dws: "dims ws h w"
    and bw: "blend_weights cv primary secondary = Inr (wp, ws)"
  obtains out where "blend_images cv primary secondary = Inr out"
    and "dims out h w"
    and "\<And>i j. i < h \<Longrightarrow> j < w \<Longrightarrow>
           out ! i ! j =
             (case primary ! i ! j of (pb, pg, pr) \<Rightarrow>
              case secondary ! i ! j of (sb, sg, sr) \<Rightarrow>
                (astype_uint8 (blend_value pb sb (wp ! i ! j) (ws ! i ! j)),
                 astype_uint8 (blend_value pg sg (wp ! i ! j) (ws ! i ! j)),
                 astype_uint8 (blend_value pr sr (wp ! i ! j) (ws ! i ! j))))"
proof -
  define to_f :: "pixel \<Rightarrow> real \<times> real \<times> real"
    where "to_f = (\<lambda>(b, g, r). (astype_float32 b, astype_float32 g, astype_float32 r))"
  define to_u :: "real \<times> real \<times> real \<Rightarrow> pixel"
    where "to_u = (\<lambda>(b, g, r). (astype_uint8 b, astype_uint8 g, astype_uint8 r))"
  define pf where "pf = map (map to_f) primary"
  define sf where "sf = map (map to_f) secondary"
  define a where "a = map2 (map2 scale_pixel) pf wp"
  define b where "b = map2 (map2 scale_pixel) sf ws"
  define c where "c = map2 (map2 add_pixel) a b"
  define out where "out = map (map to_u) c"
  have dpf: "dims pf h w" and dsf: "dims sf h w" using p s by (simp_all add: pf_def sf_def)
  have da: "dims a h w" unfolding a_def by (rule dims_map2 [OF dpf dwp])
  have db: "dims b h w" unfolding b_def by (rule dims_map2 [OF dsf dws])
  have dc: "dims c h w" unfolding c_def by (rule dims_map2 [OF da db])
  have dout: "dims out h w" using dc by (simp add: out_def)
  have ea: "elementwise scale_pixel pf wp = Inr a"
    unfolding a_def by (rule elementwise_dims [OF dpf dwp])
  have eb: "elementwise scale_pixel sf ws = Inr b"
    unfolding b_def by (rule elementwise_dims [OF dsf dws])
  have ec: "elementwise add_pixel a b = Inr c"
    unfolding c_def by (rule elementwise_dims [OF da db])
  have res: "blend_images cv primary secondary = Inr out"
    unfolding blend_images_def bw Let_def
    by (simp add: ea eb ec out_def pf_def [symmetric] sf_def [symmetric] to_f_def [symmetric]
        to_u_def [symmetric])
  have nth: "out ! i ! j =
             (case primary ! i ! j of (pb, pg, pr) \<Rightarrow>
              case secondary ! i ! j of (sb, sg, sr) \<Rightarrow>
                (astype_uint8 (blend_value pb sb (wp ! i ! j) (ws ! i ! j)),
                 astype_uint8 (blend_value pg sg (wp ! i ! j) (ws ! i ! j)),
                 astype_uint8 (blend_value pr sr (wp ! i ! j) (ws ! i ! j))))"
    if ij: "i < h" "j < w" for i j
  proof -
    have "out ! i ! j = to_u (c ! i ! j)"
      unfolding out_def by (rule map_map_nth [OF dc ij])
    also have "c ! i ! j = add_pixel (a ! i ! j) (b ! i ! j)"
      unfolding c_def by (rule map2_map2_nth [OF da db ij])
    also have "a ! i ! j = scale_pixel (pf ! i ! j) (wp ! i ! j)"
      unfolding a_def by (rule map2_map2_nth [OF dpf dwp ij])
    also have "b ! i ! j = scale_pixel (sf ! i ! j) (ws ! i ! j)"
      unfolding b_def by (rule map2_map2_nth [OF dsf dws ij])
    also have "pf ! i ! j = to_f (primary ! i ! j)"
      unfolding pf_def by (rule map_map_nth [OF p ij])
    also have "sf ! i ! j = to_f (secondary ! i ! j)"
      unfolding sf_def by (rule map_map_nth [OF s ij])
    finally show ?thesis
      by (simp add: to_u_def to_f_def add_pixel_def scale_pixel_def blend_value_def split: prod.splits)
  qed
  show thesis by (rule that [OF res dout nth])
qed

lemma astype_float32_range: "0 \<le> astype_float32 v \<and> astype_float32 v \<le> 255"
proof -
  have "unat v < 2 ^ LENGTH(8)" by (rule unsigned_less)
  then have "unat v \<le> 255" by simp
  then have "real (unat v) \<le> 255" by (simp only: of_nat_le_iff [symmetric, where 'a = real] of_nat_numeral)
  moreover have "0 \<le> real (unat v)" by (rule of_nat_0_le_iff)
  ultimately show ?thesis unfolding astype_float32_def by (rule conjI [rotated])
qed

lemma astype_uint8_float32: "astype_uint8 (astype_float32 v) = v"
proof -
  have "astype_uint8 (astype_float32 v) = word_of_int \<lfloor>real (unat v)\<rfloor>"
    unfolding astype_uint8_def astype_float32_def by (simp only: of_nat_0_le_iff if_True)
  also have "\<lfloor>real (unat v)\<rfloor> = int (unat v)" by (rule floor_of_nat)
  also have "word_of_int (int (unat v)) = v" by simp
  finally show ?thesis .
qed

subsection \<open>Auxiliary facts about the float32 variants\<close>

lemma float32_rounding_exact: "float32_rounding (\<lambda>x. x)"
  by (simp add: float32_rounding_def)

lemma fl_mono: "float32_rounding fl \<Longrightarrow> x \<le> y \<Longrightarrow> fl x \<le> fl y"
  by (simp add: float32_rounding_def)

lemma fl_idem: "float32_rounding fl \<Longrightarrow> fl (fl x) = fl x"
  by (simp add: float32_rounding_def)

lemma fl_0: "float32_rounding fl \<Longrightarrow> fl 0 = 0"
  by (simp add: float32_rounding_def)

lemma fl_1: "float32_rounding fl \<Longrightarrow> fl 1 = 1"
  by (simp add: float32_rounding_def)

lemma fl_error: "float32_rounding fl \<Longrightarrow> \<bar>x\<bar> \<le> 512 \<Longrightarrow> \<bar>fl x - x\<bar> \<le> \<bar>x\<bar> / 2 ^ 24 + 1 / 2 ^ 150"
  by (simp add: float32_rounding_def)

lemma fl_error_coarse:
  assumes "float32_rounding fl" "\<bar>x\<bar> \<le> 512"
  shows "\<bar>fl x - x\<bar> \<le> 1 / 1000"
proof -
  have "\<bar>fl x - x\<bar> \<le> \<bar>x\<bar> / 2 ^ 24 + 1 / 2 ^ 150" using assms by (rule fl_error)
  moreover have "\<bar>x\<bar> / 2 ^ 24 \<le> 512 / 2 ^ 24" using assms(2) by (simp add: divide_right_mono)
  moreover have "(512::real) / 2 ^ 24 + 1 / 2 ^ 150 \<le> 1 / 1000" by simp
  ultimately show ?thesis by linarith
qed

lemma fl_nonneg: "float32_rounding fl \<Longrightarrow> 0 \<le> x \<Longrightarrow> 0 \<le> fl x"
  using fl_mono [of fl 0 x] by (simp add: fl_0)

lemma fl_le_1: "float32_rounding fl \<Longrightarrow> x \<le> 1 \<Longrightarrow> fl x \<le> 1"
  using fl_mono [of fl x 1] by (simp add: fl_1)

lemma fl_eps_pos:
  assumes "float32_rounding fl"
  shows "0 < fl (1 / 1000000)"
proof -
  have "\<bar>(1::real) / 1000000\<bar> \<le> 512" by simp
  with assms have "\<bar>fl (1 / 1000000) - 1 / 1000000\<bar> \<le> \<bar>(1::real) / 1000000\<bar> / 2 ^ 24 + 1 / 2 ^ 150"
    by (rule fl_error)
  moreover have "\<bar>(1::real) / 1000000\<bar> / 2 ^ 24 + 1 / 2 ^ 150 < 1 / 1000000" by simp
  ultimately show ?thesis by linarith
qed

lemma laplacian_sharpness_f32_exact:
  "laplacian_sharpness_f32 (\<lambda>x. x) cv img sigma = laplacian_sharpness cv img sigma"
  by (simp add: laplacian_sharpness_f32_def laplacian_sharpness_def astype_float32_def)

lemma blend_weights_f32_exact:
  "blend_weights_f32 (\<lambda>x. x) cv primary secondary = blend_weights cv primary secondary"
  by (simp add: blend_weights_f32_def blend_weights_def laplacian_sharpness_f32_exact)

lemma scale_add_pixel_f32_exact:
  "scale_pixel_f32 (\<lambda>x. x) = scale_pixel" "add_pixel_f32 (\<lambda>x. x) = add_pixel"
  by (simp_all add: fun_eq_iff scale_pixel_f32_def scale_pixel_def add_pixel_f32_def add_pixel_def)

lemma blend_images_f32_exact:
  "blend_images_f32 (\<lambda>x. x) cv primary secondary = blend_images cv primary secondary"
  unfolding blend_images_f32_def blend_images_def blend_weights_f32_exact scale_add_pixel_f32_exact
  by (rule refl)

lemma sharpness_f32_props:
  assumes fl: "float32_rounding fl" and cv: "cv2_contract cv" and pos: "0 < h" "0 < w"
    and img: "dims img h w" and sigma: "0 < sigma"
  shows "dims (laplacian_sharpness_f32 fl cv img sigma) h w"
    and "i < h \<Longrightarrow> j < w \<Longrightarrow> 0 < laplacian_sharpness_f32 fl cv img sigma ! i ! j"
    and "i < h \<Longrightarrow> j < w \<Longrightarrow>
           fl (laplacian_sharpness_f32 fl cv img sigma ! i ! j) = laplacian_sharpness_f32 fl cv img sigma ! i ! j"
proof -
  define gray where "gray = map (map (\<lambda>v. fl (astype_float32 v / 255))) (cvtColor_BGR2GRAY cv img)"
  define energy where "energy = map (map (\<lambda>v. fl (v ^ 2))) (Laplacian_CV_32F cv gray)"
  define normalized where "normalized = normalize cv (GaussianBlur cv energy sigma) 0 1 NORM_MINMAX"
  have eq: "laplacian_sharpness_f32 fl cv img sigma = map (map (\<lambda>v. fl (v + fl (1 / 1000000)))) normalized"
    by (simp add: laplacian_sharpness_f32_def Let_def gray_def energy_def normalized_def)
  from cv pos img have "dims (cvtColor_BGR2GRAY cv img) h w"
    by (rule contract_cvtColor)
  then have "dims gray h w" by (simp add: gray_def)
  with cv pos have "dims (Laplacian_CV_32F cv gray) h w"
    by (simp add: contract_Laplacian)
  then have "dims energy h w" by (simp add: energy_def)
  with cv pos sigma have blurred: "dims (GaussianBlur cv energy sigma) h w"
    by (simp add: contract_GaussianBlur)
  have "(0::real) \<le> 1" by simp
  from contract_normalize [OF cv pos blurred this]
  have n: "dims normalized h w"
    and r: "list_all (list_all (\<lambda>v. 0 \<le> v \<and> v \<le> 1)) normalized"
    unfolding normalized_def by simp_all
  from n show "dims (laplacian_sharpness_f32 fl cv img sigma) h w" by (simp add: eq)
  {
    assume ij: "i < h" "j < w"
    from list_all2_nth [OF n r ij] have n0: "0 \<le> normalized ! i ! j" by simp
    have v: "laplacian_sharpness_f32 fl cv img sigma ! i ! j = fl (normalized ! i ! j + fl (1 / 1000000))"
      using n ij by (simp add: eq map_map_nth)
    from n0 have "fl (1 / 1000000) \<le> normalized ! i ! j + fl (1 / 1000000)" by simp
    then have "fl (fl (1 / 1000000)) \<le> fl (normalized ! i ! j + fl (1 / 1000000))"
      by (rule fl_mono [OF fl])
    then have "fl (1 / 1000000) \<le> laplacian_sharpness_f32 fl cv img sigma ! i ! j"
      by (simp add: v fl_idem [OF fl])
    with fl_eps_pos [OF fl] have "0 < laplacian_sharpness_f32 fl cv img sigma ! i ! j" by linarith
    moreover have "fl (laplacian_sharpness_f32 fl cv img sigma ! i ! j) = laplacian_sharpness_f32 fl cv img sigma ! i ! j"
      by (simp add: v fl_idem [OF fl])
    ultimately have "0 < laplacian_sharpness_f32 fl cv img sigma ! i ! j"
      and "fl (laplacian_sharpness_f32 fl cv img sigma ! i ! j) = laplacian_sharpness_f32 fl cv img sigma ! i ! j"
      by simp_all
  }
  then show "i < h \<Longrightarrow> j < w \<Longrightarrow> 0 < laplacian_sharpness_f32 fl cv img sigma ! i ! j"
    and "i < h \<Longrightarrow> j < w \<Longrightarrow>
           fl (laplacian_sharpness_f32 fl cv img sigma ! i ! j) = laplacian_sharpness_f32 fl cv img sigma ! i ! j"
    by blast+
qed

lemma weight_f32_bounds:
  assumes fl: "float32_rounding fl" and a: "0 < a" "fl a = a" and b: "0 < b"
  shows "0 \<le> fl (a / fl (a + b))" and "fl (a / fl (a + b)) \<le> 1"
proof -
  have "a \<le> a + b" using b by simp
  then have "fl a \<le> fl (a + b)" by (rule fl_mono [OF fl])
  then have den: "a \<le> fl (a + b)" by (simp add: a)
  with a have dpos: "0 < fl (a + b)" by linarith
  have "0 \<le> a / fl (a + b)" using a dpos by simp
  then show "0 \<le> fl (a / fl (a + b))" by (rule fl_nonneg [OF fl])
  have "a / fl (a + b) \<le> 1" using den dpos by (simp add: divide_le_eq)
  then show "fl (a / fl (a + b)) \<le> 1" by (rule fl_le_1 [OF fl])
qed

lemma blend_weights_f32_props:
  assumes fl: "float32_rounding fl" and cv: "cv2_contract cv" and pos: "0 < h" "0 < w"
    and p: "dims primary h w" and s: "dims secondary h w"
  obtains wp ws where "blend_weights_f32 fl cv primary secondary = Inr (wp, ws)"
    and "dims wp h w" and "dims ws h w"
    and "\<And>i j. i < h \<Longrightarrow> j < w \<Longrightarrow>
           wp ! i ! j = fl (laplacian_sharpness_f32 fl cv primary (3 / 2) ! i ! j /
             fl (laplacian_sharpness_f32 fl cv primary (3 / 2) ! i ! j
                 + laplacian_sharpness_f32 fl cv secondary (3 / 2) ! i ! j))"
    and "\<And>i j. i < h \<Longrightarrow> j < w \<Longrightarrow> ws ! i ! j = fl (1 - wp ! i ! j)"
    and "\<And>i j. i < h \<Longrightarrow> j < w \<Longrightarrow> 0 \<le> wp ! i ! j \<and> wp ! i ! j \<le> 1"
proof -
  define sp where "sp = laplacian_sharpness_f32 fl cv primary (3 / 2)"
  define ss where "ss = laplacian_sharpness_f32 fl cv secondary (3 / 2)"
  define den where "den = map2 (map2 (\<lambda>a b. fl (a + b))) sp ss"
  define wp where "wp = map2 (map2 (\<lambda>a d. fl (a / d))) sp den"
  define ws where "ws = map (map (\<lambda>w. fl (1 - w))) wp"
  have sigma: "(0::real) < 3 / 2" by simp
  have dsp: "dims sp h w" unfolding sp_def by (rule sharpness_f32_props(1) [OF fl cv pos p sigma])
  have dss: "dims ss h w" unfolding ss_def by (rule sharpness_f32_props(1) [OF fl cv pos s sigma])
  have dden: "dims den h w" unfolding den_def by (rule dims_map2 [OF dsp dss])
  have dwp: "dims wp h w" unfolding wp_def by (rule dims_map2 [OF dsp dden])
  have dws: "dims ws h w" unfolding ws_def using dwp by simp
  have e1: "elementwise (\<lambda>a b. fl (a + b)) sp ss = Inr den"
    unfolding den_def by (rule elementwise_dims [OF dsp dss])
  have e2: "elementwise (\<lambda>a d. fl (a / d)) sp den = Inr wp"
    unfolding wp_def by (rule elementwise_dims [OF dsp dden])
  have res: "blend_weights_f32 fl cv primary secondary = Inr (wp, ws)"
    unfolding blend_weights_f32_def Let_def sp_def [symmetric] ss_def [symmetric]
    by (simp add: e1 e2 ws_def)
  have wp_nth: "wp ! i ! j = fl (sp ! i ! j / fl (sp ! i ! j + ss ! i ! j))" if "i < h" "j < w" for i j
    using that by (simp add: wp_def den_def map2_map2_nth [OF dsp dden, unfolded den_def] map2_map2_nth [OF dsp dss])
  have ws_nth: "ws ! i ! j = fl (1 - wp ! i ! j)" if "i < h" "j < w" for i j
    using that by (simp add: ws_def map_map_nth [OF dwp])
  have bounds: "0 \<le> wp ! i ! j \<and> wp ! i ! j \<le> 1" if ij: "i < h" "j < w" for i j
  proof -
    have a: "0 < sp ! i ! j" "fl (sp ! i ! j) = sp ! i ! j"
      unfolding sp_def
      by (rule sharpness_f32_props(2) [OF fl cv pos p sigma ij],
          rule sharpness_f32_props(3) [OF fl cv pos p sigma ij])
    have b: "0 < ss ! i ! j"
      unfolding ss_def by (rule sharpness_f32_props(2) [OF fl cv pos s sigma ij])
    from weight_f32_bounds [OF fl a b] show ?thesis by (simp add: wp_nth [OF ij])
  qed
  show thesis
    by (rule that [OF res dwp dws wp_nth [unfolded sp_def ss_def] ws_nth bounds])
qed

lemma blend_images_f32_Inr:
  assumes p: "dims primary h w" and s: "dims secondary h w"
    and dwp: "dims wp h w" and dws: "dims ws h w"
    and bw: "blend_weights_f32 fl cv primary secondary = Inr (wp, ws)"
  obtains out where "blend_images_f32 fl cv primary secondary = Inr out"
    and "dims out h w"
    and "\<And>i j. i < h \<Longrightarrow> j < w \<Longrightarrow>
           out ! i ! j =
             (case primary ! i ! j of (pb, pg, pr) \<Rightarrow>
              case secondary ! i ! j of (sb, sg, sr) \<Rightarrow>
                (astype_uint8 (blend_value_f32 fl pb sb (wp ! i ! j) (ws ! i ! j)),
                 astype_uint8 (blend_value_f32 fl pg sg (wp ! i ! j) (ws ! i ! j)),
                 astype_uint8 (blend_value_f32 fl pr sr (wp ! i ! j) (ws ! i ! j))))"
proof -
  define to_f :: "pixel \<Rightarrow> real \<times> real \<times> real"
    where "to_f = (\<lambda>(b, g, r). (astype_float32 b, astype_float32 g, astype_float32 r))"
  define to_u :: "real \<times> real \<times> real \<Rightarrow> pixel"
    where "to_u = (\<lambda>(b, g, r). (astype_uint8 b, astype_uint8 g, astype_uint8 r))"
  define pf where "pf = map (map to_f) primary"
  define sf where "sf = map (map to_f) secondary"
  define a where "a = map2 (map2 (scale_pixel_f32 fl)) pf wp"
  define b where "b = map2 (map2 (scale_pixel_f32 fl)) sf ws"
  define c where "c = map2 (map2 (add_pixel_f32 fl)) a b"
  define out where "out = map (map to_u) c"
  have dpf: "dims pf h w" and dsf: "dims sf h w" using p s by (simp_all add: pf_def sf_def)
  have da: "dims a h w" unfolding a_def by (rule dims_map2 [OF dpf dwp])
  have db: "dims b h w" unfolding b_def by (rule dims_map2 [OF dsf dws])
  have dc: "dims c h w" unfolding c_def by (rule dims_map2 [OF da db])
  have dout: "dims out h w" using dc by (simp add: out_def)
  have ea: "elementwise (scale_pixel_f32 fl) pf wp = Inr a"
    unfolding a_def by (rule elementwise_dims [OF dpf dwp])
  have eb: "elementwise (scale_pixel_f32 fl) sf ws = Inr b"
    unfolding b_def by (rule elementwise_dims [OF dsf dws])
  have ec: "elementwise (add_pixel_f32 fl) a b = Inr c"
    unfolding c_def by (rule elementwise_dims [OF da db])
  have res: "blend_images_f32 fl cv primary secondary = Inr out"
    unfolding blend_images_f32_def bw Let_def
    by (simp add: ea eb ec out_def pf_def [symmetric] sf_def [symmetric] to_f_def [symmetric]
        to_u_def [symmetric])
  have nth: "out ! i ! j =
             (case primary ! i ! j of (pb, pg, pr) \<Rightarrow>
              case secondary ! i ! j of (sb, sg, sr) \<Rightarrow>
                (astype_uint8 (blend_value_f32 fl pb sb (wp ! i ! j) (ws ! i ! j)),
                 astype_uint8 (blend_value_f32 fl pg sg (wp ! i ! j) (ws ! i ! j)),
                 astype_uint8 (blend_value_f32 fl pr sr (wp ! i ! j) (ws ! i ! j))))"
    if ij: "i < h" "j < w" for i j
  proof -
    have "out ! i ! j = to_u (c ! i ! j)"
      unfolding out_def by (rule map_map_nth [OF dc ij])
    also have "c ! i ! j = add_pixel_f32 fl (a ! i ! j) (b ! i ! j)"
      unfolding c_def by (rule map2_map2_nth [OF da db ij])
    also have "a ! i ! j = scale_pixel_f32 fl (pf ! i ! j) (wp ! i ! j)"
      unfolding a_def by (rule map2_map2_nth [OF dpf dwp ij])
    also have "b ! i ! j = scale_pixel_f32 fl (sf ! i ! j) (ws ! i ! j)"
      unfolding b_def by (rule map2_map2_nth [OF dsf dws ij])
    also have "pf ! i ! j = to_f (primary ! i ! j)"
      unfolding pf_def by (rule map_map_nth [OF p ij])
    also have "sf ! i ! j = to_f (secondary ! i ! j)"
      unfolding sf_def by (rule map_map_nth [OF s ij])
    finally show ?thesis
      by (simp add: to_u_def to_f_def add_pixel_f32_def scale_pixel_f32_def blend_value_f32_def
          split: prod.splits)
  qed
  show thesis by (rule that [OF res dout nth])
qed

lemma blend_value_f32_range:
  assumes fl: "float32_rounding fl" and wp: "0 \<le> wp" "wp \<le> 1"
  shows "0 \<le> blend_value_f32 fl pc sc wp (fl (1 - wp))"
    and "blend_value_f32 fl pc sc wp (fl (1 - wp)) < 256"
    and "\<bar>blend_value_f32 fl pc sc wp (fl (1 - wp)) - blend_value pc sc wp (fl (1 - wp))\<bar> \<le> 1 / 2 ^ 14"
proof -
  define P where "P = astype_float32 pc"
  define S where "S = astype_float32 sc"
  define ws where "ws = fl (1 - wp)"
  define a where "a = fl (P * wp)"
  define b where "b = fl (S * ws)"
  have P: "0 \<le> P" "P \<le> 255" and S: "0 \<le> S" "S \<le> 255"
    using astype_float32_range by (simp_all add: P_def S_def)
  have ws0: "0 \<le> ws" unfolding ws_def using wp by (intro fl_nonneg [OF fl]) simp
  have ws1: "ws \<le> 1" unfolding ws_def using wp by (intro fl_le_1 [OF fl]) simp
  have "\<bar>1 - wp\<bar> \<le> 512" using wp by simp
  from fl_error_coarse [OF fl this] have ws_hi: "ws \<le> 1 - wp + 1 / 1000"
    unfolding ws_def by linarith
  have Pw0: "0 \<le> P * wp" using P wp by simp
  have "P * wp \<le> 255 * wp" using P(2) wp(1) by (rule mult_right_mono)
  also have "\<dots> \<le> 255 * 1" using wp(2) by simp
  finally have Pw: "P * wp \<le> 255" by simp
  have Sw0: "0 \<le> S * ws" using S ws0 by simp
  have Sw_ws: "S * ws \<le> 255 * ws" using S(2) ws0 by (rule mult_right_mono)
  also have "\<dots> \<le> 255 * 1" using ws1 by simp
  finally have Sw: "S * ws \<le> 255" by simp
  have a0: "0 \<le> a" unfolding a_def using Pw0 by (rule fl_nonneg [OF fl])
  have b0: "0 \<le> b" unfolding b_def using Sw0 by (rule fl_nonneg [OF fl])
  have "\<bar>P * wp\<bar> \<le> 512" using Pw0 Pw by simp
  note ea = fl_error_coarse [OF fl this] fl_error [OF fl this]
  have "\<bar>S * ws\<bar> \<le> 512" using Sw0 Sw by simp
  note eb = fl_error_coarse [OF fl this] fl_error [OF fl this]
  have "P * wp + S * ws \<le> 255 * wp + 255 * ws"
    using \<open>P * wp \<le> 255 * wp\<close> Sw_ws by linarith
  also have "\<dots> \<le> 255 + 255 / 1000" using ws_hi by simp
  finally have exact_hi: "P * wp + S * ws \<le> 255 + 255 / 1000" .
  have ab_hi: "a + b \<le> 255 + 257 / 1000"
    using ea(1) eb(1) exact_hi unfolding a_def b_def by linarith
  have ab0: "0 \<le> a + b" using a0 b0 by simp
  have ab512: "\<bar>a + b\<bar> \<le> 512" using ab0 ab_hi by simp
  note ev = fl_error_coarse [OF fl ab512] fl_error [OF fl ab512]
  have v: "blend_value_f32 fl pc sc wp (fl (1 - wp)) = fl (a + b)"
    by (simp add: blend_value_f32_def a_def b_def P_def S_def ws_def)
  show "0 \<le> blend_value_f32 fl pc sc wp (fl (1 - wp))"
    unfolding v using ab0 by (rule fl_nonneg [OF fl])
  show "blend_value_f32 fl pc sc wp (fl (1 - wp)) < 256"
    unfolding v using ev(1) ab_hi by linarith
  have exact: "blend_value pc sc wp (fl (1 - wp)) = P * wp + S * ws"
    by (simp add: blend_value_def P_def S_def ws_def)
  have "\<bar>P * wp\<bar> / 2 ^ 24 \<le> 255 / 2 ^ 24" using Pw0 Pw by (simp add: divide_right_mono)
  with ea(2) have ea': "\<bar>a - P * wp\<bar> \<le> 255 / 2 ^ 24 + 1 / 2 ^ 150" unfolding a_def by linarith
  have "\<bar>S * ws\<bar> / 2 ^ 24 \<le> 255 / 2 ^ 24" using Sw0 Sw by (simp add: divide_right_mono)
  with eb(2) have eb': "\<bar>b - S * ws\<bar> \<le> 255 / 2 ^ 24 + 1 / 2 ^ 150" unfolding b_def by linarith
  have "\<bar>a + b\<bar> / 2 ^ 24 \<le> 256 / 2 ^ 24" using ab0 ab_hi by (simp add: divide_right_mono)
  with ev(2) have ev': "\<bar>fl (a + b) - (a + b)\<bar> \<le> 256 / 2 ^ 24 + 1 / 2 ^ 150" by linarith
  have "(255::real) / 2 ^ 24 + 1 / 2 ^ 150 + (255 / 2 ^ 24 + 1 / 2 ^ 150) + (256 / 2 ^ 24 + 1 / 2 ^ 150) \<le> 1 / 2 ^ 14"
    by simp
  with ea' eb' ev'
  show "\<bar>blend_value_f32 fl pc sc wp (fl (1 - wp)) - blend_value pc sc wp (fl (1 - wp))\<bar> \<le> 1 / 2 ^ 14"
    unfolding v exact by linarith
qed

lemma astype_uint8_truncates:
  assumes "0 \<le> v" "v < 256"
  shows "uint (astype_uint8 v) = \<lfloor>v\<rfloor>"
proof -
  have "0 \<le> \<lfloor>v\<rfloor>" "\<lfloor>v\<rfloor> < 256" using assms by (simp_all add: floor_less_iff)
  then show ?thesis using assms by (simp add: astype_uint8_def uint_word_of_int)
qed

lemma astype_uint8_wraps: "astype_uint8 300 = 44"
  by (simp add: astype_uint8_def)

lemma sample_Laplacian_uniform: "sample_Laplacian [[c, c], [c, c]] = [[0, 0], [0, 0]]"
  by (simp add: sample_Laplacian_def stencil_def reflect101_def numeral_2_eq_2)

lemma sample_GaussianBlur_zero: "sample_GaussianBlur [[0, 0], [0, 0]] sigma = [[0, 0], [0, 0]]"
  by (simp add: sample_GaussianBlur_def stencil_def reflect101_def numeral_2_eq_2)

lemma sample_normalize_zero: "sample_normalize [[0, 0], [0, 0]] 0 1 NORM_MINMAX = [[0, 0], [0, 0]]"
  by (simp add: sample_normalize_def array_min_def array_max_def)

lemma sample_sharpness_uniform:
  "laplacian_sharpness_f32 (\<lambda>x. x) sample_cv2 black_image (3 / 2)
     = [[1 / 1000000, 1 / 1000000], [1 / 1000000, 1 / 1000000]]"
  "laplacian_sharpness_f32 (\<lambda>x. x) sample_cv2 white_image (3 / 2)
     = [[1 / 1000000, 1 / 1000000], [1 / 1000000, 1 / 1000000]]"
  by (simp_all add: laplacian_sharpness_f32_def sample_cv2_def sample_cvtColor_def black_image_def
      white_image_def astype_float32_def sample_Laplacian_uniform sample_GaussianBlur_zero
      sample_normalize_zero)

lemma sample_weights_uniform:
  "blend_weights_f32 (\<lambda>x. x) sample_cv2 black_image white_image
     = Inr ([[1 / 2, 1 / 2], [1 / 2, 1 / 2]], [[1 / 2, 1 / 2], [1 / 2, 1 / 2]])"
  by (simp add: blend_weights_f32_def sample_sharpness_uniform elementwise_def)

subsection \<open>C1: the two blend weights of a pixel add up to 1\<close>

text \<open>
  C1: for two images of the same height and width (and OpenCV routines that meet
  \<open>cv2_contract\<close>), the weight maps of \<open>blend_images\<close> are computed without an
  error, have the dimensions of the images, and at every pixel
  \<open>weight_primary = sharpness_primary / (sharpness_primary + sharpness_secondary)\<close>,
  \<open>weight_secondary = 1 - weight_primary\<close> and
  \<open>weight_primary + weight_secondary = 1\<close>; both weights lie strictly between 0 and 1.
\<close>

theorem blend_weights_sum_to_one:
  assumes cv: "cv2_contract cv" and pos: "0 < h" "0 < w"
    and p: "dims primary h w" and s: "dims secondary h w"
  shows "\<exists>weight_primary weight_secondary.
           blend_weights cv primary secondary = Inr (weight_primary, weight_secondary) \<and>
           dims weight_primary h w \<and> dims weight_secondary h w \<and>
           (\<forall>i < h. \<forall>j < w.
              weight_primary ! i ! j =
                laplacian_sharpness cv primary (3 / 2) ! i ! j /
                  (laplacian_sharpness cv primary (3 / 2) ! i ! j
                     + laplacian_sharpness cv secondary (3 / 2) ! i ! j) \<and>
              weight_secondary ! i ! j = 1 - weight_primary ! i ! j \<and>
              weight_primary ! i ! j + weight_secondary ! i ! j = 1 \<and>
              0 < weight_primary ! i ! j \<and> weight_primary ! i ! j < 1)"
proof -
  from blend_weights_Inr [OF cv pos p s] obtain wp ws
    where res: "blend_weights cv primary secondary = Inr (wp, ws)"
      and d: "dims wp h w" "dims ws h w"
      and wp: "\<And>i j. i < h \<Longrightarrow> j < w \<Longrightarrow>
           wp ! i ! j = laplacian_sharpness cv primary (3 / 2) ! i ! j /
             (laplacian_sharpness cv primary (3 / 2) ! i ! j + laplacian_sharpness cv secondary (3 / 2) ! i ! j)"
      and ws: "\<And>i j. i < h \<Longrightarrow> j < w \<Longrightarrow> ws ! i ! j = 1 - wp ! i ! j"
    by blast
  have sigma: "(0::real) < 3 / 2" by simp
  have pointwise: "wp ! i ! j =
                laplacian_sharpness cv primary (3 / 2) ! i ! j /
                  (laplacian_sharpness cv primary (3 / 2) ! i ! j
                     + laplacian_sharpness cv secondary (3 / 2) ! i ! j) \<and>
              ws ! i ! j = 1 - wp ! i ! j \<and>
              wp ! i ! j + ws ! i ! j = 1 \<and>
              0 < wp ! i ! j \<and> wp ! i ! j < 1" if ij: "i < h" "j < w" for i j
  proof -
    have "1 / 1000000 \<le> laplacian_sharpness cv primary (3 / 2) ! i ! j"
      by (rule sharpness_dims_range(2) [OF cv pos p sigma ij])
    then have a: "0 < laplacian_sharpness cv primary (3 / 2) ! i ! j" by simp
    have "1 / 1000000 \<le> laplacian_sharpness cv secondary (3 / 2) ! i ! j"
      by (rule sharpness_dims_range(2) [OF cv pos s sigma ij])
    then have b: "0 < laplacian_sharpness cv secondary (3 / 2) ! i ! j" by simp
    from weight_bounds [OF a b] show ?thesis
      by (simp add: wp [OF ij] ws [OF ij])
  qed
  from res d pointwise show ?thesis by blast
qed

theorem blend_weights_sum_to_one_witness:
  "\<exists>weight_primary weight_secondary.
     blend_weights sample_cv2 sample_image sample_image' = Inr (weight_primary, weight_secondary) \<and>
     weight_primary ! 1 ! 0 + weight_secondary ! 1 ! 0 = 1 \<and>
     0 < weight_primary ! 1 ! 0 \<and> weight_primary ! 1 ! 0 < 1"
proof -
  have h: "0 < (3::nat)" by simp
  from blend_weights_sum_to_one [OF sample_cv2_contract h h sample_image_dims]
  obtain wp ws where res: "blend_weights sample_cv2 sample_image sample_image' = Inr (wp, ws)"
    and all: "\<forall>i < 3. \<forall>j < 3.
              wp ! i ! j =
                laplacian_sharpness sample_cv2 sample_image (3 / 2) ! i ! j /
                  (laplacian_sharpness sample_cv2 sample_image (3 / 2) ! i ! j
                     + laplacian_sharpness sample_cv2 sample_image' (3 / 2) ! i ! j) \<and>
              ws ! i ! j = 1 - wp ! i ! j \<and>
              wp ! i ! j + ws ! i ! j = 1 \<and>
              0 < wp ! i ! j \<and> wp ! i ! j < 1"
    by (elim exE conjE)
  have i: "(1::nat) < 3" "(0::nat) < 3" by simp_all
  from all [rule_format, OF i]
  have "wp ! 1 ! 0 + ws ! 1 ! 0 = 1 \<and> 0 < wp ! 1 ! 0 \<and> wp ! 1 ! 0 < 1" by blast
  with res show ?thesis by (intro exI [of _ wp] exI [of _ ws]) simp
qed

subsection \<open>C2: blending an image with itself\<close>

text \<open>
  C2: for every image (and OpenCV routines that meet \<open>cv2_contract\<close>),
  \<open>blend_images\<close> applied to the image and itself returns exactly that image: the two
  sharpness maps are equal, both weights are one half, and the conversion back to
  uint8 is exact on whole numbers.
\<close>

theorem blend_images_same:
  assumes cv: "cv2_contract cv" and pos: "0 < h" "0 < w" and img: "dims img h w"
  shows "blend_images cv img img = Inr img"
proof (rule blend_weights_props [OF cv pos img img])
  fix wp ws
  assume res: "blend_weights cv img img = Inr (wp, ws)"
    and d: "dims wp h w" "dims ws h w"
    and wp: "\<And>i j. i < h \<Longrightarrow> j < w \<Longrightarrow>
           wp ! i ! j = laplacian_sharpness cv img (3 / 2) ! i ! j /
             (laplacian_sharpness cv img (3 / 2) ! i ! j + laplacian_sharpness cv img (3 / 2) ! i ! j)"
    and ws: "\<And>i j. i < h \<Longrightarrow> j < w \<Longrightarrow> ws ! i ! j = 1 - wp ! i ! j"
  have sigma: "(0::real) < 3 / 2" by simp
  have half: "wp ! i ! j = 1 / 2 \<and> ws ! i ! j = 1 / 2" if ij: "i < h" "j < w" for i j
  proof -
    have "1 / 1000000 \<le> laplacian_sharpness cv img (3 / 2) ! i ! j"
      by (rule sharpness_dims_range(2) [OF cv pos img sigma ij])
    then have ne: "laplacian_sharpness cv img (3 / 2) ! i ! j \<noteq> 0" by simp
    have "a / (a + a) = 1 / 2" if "a \<noteq> 0" for a :: real
      using that by (simp add: field_simps)
    from this [OF ne] have "wp ! i ! j = 1 / 2" by (simp only: wp [OF ij])
    moreover from this have "ws ! i ! j = 1 / 2" by (simp add: ws [OF ij])
    ultimately show ?thesis by (rule conjI)
  qed
  have v: "blend_value c c (1 / 2) (1 / 2) = astype_float32 c" for c
    by (simp add: blend_value_def)
  show ?thesis
  proof (rule blend_images_Inr [OF img img d res])
    fix out
    assume out: "blend_images cv img img = Inr out" and dout: "dims out h w"
      and nth: "\<And>i j. i < h \<Longrightarrow> j < w \<Longrightarrow>
           out ! i ! j =
             (case img ! i ! j of (pb, pg, pr) \<Rightarrow>
              case img ! i ! j of (sb, sg, sr) \<Rightarrow>
                (astype_uint8 (blend_value pb sb (wp ! i ! j) (ws ! i ! j)),
                 astype_uint8 (blend_value pg sg (wp ! i ! j) (ws ! i ! j)),
                 astype_uint8 (blend_value pr sr (wp ! i ! j) (ws ! i ! j))))"
    have same: "out ! i ! j = img ! i ! j" if ij: "i < h" "j < w" for i j
    proof (cases "img ! i ! j")
      case (fields pb pg pr)
      from nth [OF ij] half [OF ij] show ?thesis
        by (simp only: fields prod.case v astype_uint8_float32)
    qed
    from dims_eqI [OF dout img same] have "out = img" .
    with out show ?thesis by (simp only:)
  qed
qed

theorem blend_images_same_witness:
  "blend_images sample_cv2 sample_image sample_image = Inr sample_image"
proof -
  have h: "0 < (3::nat)" by simp
  show ?thesis by (rule blend_images_same [OF sample_cv2_contract h h sample_image_dims(1)])
qed

subsection \<open>C3: the value of an output pixel\<close>

text \<open>
  C3 as stated (each output pixel is the blend
  \<open>primary_pixel * weight_primary + secondary_pixel * weight_secondary\<close> rounded and
  clamped to \<open>[0, 255]\<close>) fails. The script converts with \<^verbatim>\<open>astype(np.uint8)\<close>, which
  drops the fractional part. For a black primary and a white secondary image both
  sharpness maps are constant, both weights are one half, the blend of every channel
  is \<open>255 / 2\<close>, and the output is 127 where rounding gives 128. At this input the
  weights and \<open>255 / 2\<close> are float32 numbers, so no operation of the blend rounds.
\<close>

theorem blend_images_round_counterexample:
  "blend_weights_f32 (\<lambda>x. x) sample_cv2 black_image white_image
     = Inr ([[1 / 2, 1 / 2], [1 / 2, 1 / 2]], [[1 / 2, 1 / 2], [1 / 2, 1 / 2]]) \<and>
   blend_images_f32 (\<lambda>x. x) sample_cv2 black_image white_image
     = Inr [[(127, 127, 127), (127, 127, 127)], [(127, 127, 127), (127, 127, 127)]] \<and>
   blend_value 0 255 (1 / 2) (1 / 2) = 255 / 2 \<and>
   round_clamp_uint8 (blend_value 0 255 (1 / 2) (1 / 2)) = 128"
proof (intro conjI)
  show "blend_weights_f32 (\<lambda>x. x) sample_cv2 black_image white_image
     = Inr ([[1 / 2, 1 / 2], [1 / 2, 1 / 2]], [[1 / 2, 1 / 2], [1 / 2, 1 / 2]])"
    by (rule sample_weights_uniform)
  show "blend_images_f32 (\<lambda>x. x) sample_cv2 black_image white_image
     = Inr [[(127, 127, 127), (127, 127, 127)], [(127, 127, 127), (127, 127, 127)]]"
    unfolding blend_images_f32_def sample_weights_uniform
    by (simp add: black_image_def white_image_def elementwise_def scale_pixel_f32_def
        add_pixel_f32_def astype_float32_def astype_uint8_def)
  show v: "blend_value 0 255 (1 / 2) (1 / 2) = 255 / 2"
    by (simp add: blend_value_def astype_float32_def)
  show "round_clamp_uint8 (blend_value 0 255 (1 / 2) (1 / 2)) = 128"
    by (simp add: v round_clamp_uint8_def round_def)
qed

text \<open>
  C3, amended: for two 8-bit images of the same height and width, OpenCV routines that
  meet \<open>cv2_contract\<close> and a float32 rounding \<open>fl\<close>, every output pixel of
  \<open>blend_images_f32\<close> is, channel by channel, the conversion to uint8 of the float32
  value of \<open>primary_pixel * weight_primary + secondary_pixel * weight_secondary\<close> (the
  two products and the sum each rounded to float32, which is within \<open>1 / 2 ^ 14\<close> of the
  exact expression), with the one weight of the pixel used for its three channels. That
  value lies in \<open>[0, 256)\<close>, so the conversion is the truncation to the integer part,
  not a rounding to the nearest integer, and it stays in \<open>[0, 255]\<close> although the
  script does not clamp.
\<close>

theorem blend_images_f32_pixel:
  assumes fl: "float32_rounding fl" and cv: "cv2_contract cv" and pos: "0 < h" "0 < w"
    and p: "dims primary h w" and s: "dims secondary h w"
  shows "\<exists>weight_primary weight_secondary out.
           blend_weights_f32 fl cv primary secondary = Inr (weight_primary, weight_secondary) \<and>
           blend_images_f32 fl cv primary secondary = Inr out \<and> dims out h w \<and>
           (\<forall>i < h. \<forall>j < w.
              out ! i ! j =
                (case primary ! i ! j of (pb, pg, pr) \<Rightarrow>
                 case secondary ! i ! j of (sb, sg, sr) \<Rightarrow>
                   (astype_uint8 (blend_value_f32 fl pb sb (weight_primary ! i ! j) (weight_secondary ! i ! j)),
                    astype_uint8 (blend_value_f32 fl pg sg (weight_primary ! i ! j) (weight_secondary ! i ! j)),
                    astype_uint8 (blend_value_f32 fl pr sr (weight_primary ! i ! j) (weight_secondary ! i ! j)))) \<and>
              (\<forall>pc sc.
                 0 \<le> blend_value_f32 fl pc sc (weight_primary ! i ! j) (weight_secondary ! i ! j) \<and>
                 blend_value_f32 fl pc sc (weight_primary ! i ! j) (weight_secondary ! i ! j) < 256 \<and>
                 uint (astype_uint8 (blend_value_f32 fl pc sc (weight_primary ! i ! j) (weight_secondary ! i ! j)))
                   = \<lfloor>blend_value_f32 fl pc sc (weight_primary ! i ! j) (weight_secondary ! i ! j)\<rfloor> \<and>
                 \<bar>blend_value_f32 fl pc sc (weight_primary ! i ! j) (weight_secondary ! i ! j)
                    - blend_value pc sc (weight_primary ! i ! j) (weight_secondary ! i ! j)\<bar> \<le> 1 / 2 ^ 14))"
proof (rule blend_weights_f32_props [OF fl cv pos p s])
  fix wp ws
  assume res: "blend_weights_f32 fl cv primary secondary = Inr (wp, ws)"
    and d: "dims wp h w" "dims ws h w"
    and ws: "\<And>i j. i < h \<Longrightarrow> j < w \<Longrightarrow> ws ! i ! j = fl (1 - wp ! i ! j)"
    and bounds: "\<And>i j. i < h \<Longrightarrow> j < w \<Longrightarrow> 0 \<le> wp ! i ! j \<and> wp ! i ! j \<le> 1"
  have range: "0 \<le> blend_value_f32 fl pc sc (wp ! i ! j) (ws ! i ! j) \<and>
               blend_value_f32 fl pc sc (wp ! i ! j) (ws ! i ! j) < 256 \<and>
               uint (astype_uint8 (blend_value_f32 fl pc sc (wp ! i ! j) (ws ! i ! j)))
                 = \<lfloor>blend_value_f32 fl pc sc (wp ! i ! j) (ws ! i ! j)\<rfloor> \<and>
               \<bar>blend_value_f32 fl pc sc (wp ! i ! j) (ws ! i ! j)
                  - blend_value pc sc (wp ! i ! j) (ws ! i ! j)\<bar> \<le> 1 / 2 ^ 14"
    if ij: "i < h" "j < w" for i j pc sc
  proof -
    from bounds [OF ij] have b: "0 \<le> wp ! i ! j" "wp ! i ! j \<le> 1" by simp_all
    have lo: "0 \<le> blend_value_f32 fl pc sc (wp ! i ! j) (ws ! i ! j)"
      unfolding ws [OF ij] by (rule blend_value_f32_range(1) [OF fl b])
    have hi: "blend_value_f32 fl pc sc (wp ! i ! j) (ws ! i ! j) < 256"
      unfolding ws [OF ij] by (rule blend_value_f32_range(2) [OF fl b])
    have near: "\<bar>blend_value_f32 fl pc sc (wp ! i ! j) (ws ! i ! j)
                  - blend_value pc sc (wp ! i ! j) (ws ! i ! j)\<bar> \<le> 1 / 2 ^ 14"
      unfolding ws [OF ij] by (rule blend_value_f32_range(3) [OF fl b])
    from lo hi near astype_uint8_truncates [OF lo hi] show ?thesis by simp
  qed
  show ?thesis
  proof (rule blend_images_f32_Inr [OF p s d res])
    fix out
    assume out: "blend_images_f32 fl cv primary secondary = Inr out" and dout: "dims out h w"
      and nth: "\<And>i j. i < h \<Longrightarrow> j < w \<Longrightarrow>
           out ! i ! j =
             (case primary ! i ! j of (pb, pg, pr) \<Rightarrow>
              case secondary ! i ! j of (sb, sg, sr) \<Rightarrow>
                (astype_uint8 (blend_value_f32 fl pb sb (wp ! i ! j) (ws ! i ! j)),
                 astype_uint8 (blend_value_f32 fl pg sg (wp ! i ! j) (ws ! i ! j)),
                 astype_uint8 (blend_value_f32 fl pr sr (wp ! i ! j) (ws ! i ! j))))"
    show ?thesis
    proof (rule exI [of _ wp], rule exI [of _ ws], rule exI [of _ out], intro conjI allI impI)
      show "blend_weights_f32 fl cv primary secondary = Inr (wp, ws)" by (rule res)
      show "blend_images_f32 fl cv primary secondary = Inr out" by (rule out)
      show "dims out h w" by (rule dout)
    next
      fix i j assume ij: "i < h" "j < w"
      show "out ! i ! j =
             (case primary ! i ! j of (pb, pg, pr) \<Rightarrow>
              case secondary ! i ! j of (sb, sg, sr) \<Rightarrow>
                (astype_uint8 (blend_value_f32 fl pb sb (wp ! i ! j) (ws ! i ! j)),
                 astype_uint8 (blend_value_f32 fl pg sg (wp ! i ! j) (ws ! i ! j)),
                 astype_uint8 (blend_value_f32 fl pr sr (wp ! i ! j) (ws ! i ! j))))"
        by (rule nth [OF ij])
      fix pc sc
      from range [OF ij, of pc sc]
      show "0 \<le> blend_value_f32 fl pc sc (wp ! i ! j) (ws ! i ! j)"
        and "blend_value_f32 fl pc sc (wp ! i ! j) (ws ! i ! j) < 256"
        and "uint (astype_uint8 (blend_value_f32 fl pc sc (wp ! i ! j) (ws ! i ! j)))
                 = \<lfloor>blend_value_f32 fl pc sc (wp ! i ! j) (ws ! i ! j)\<rfloor>"
        and "\<bar>blend_value_f32 fl pc sc (wp ! i ! j) (ws ! i ! j)
                  - blend_value pc sc (wp ! i ! j) (ws ! i ! j)\<bar> \<le> 1 / 2 ^ 14"
        by simp_all
    qed
  qed
qed

theorem blend_images_f32_pixel_witness:
  "\<exists>weight_primary weight_secondary out.
     blend_weights_f32 (\<lambda>x. x) sample_cv2 sample_image sample_image' = Inr (weight_primary, weight_secondary) \<and>
     blend_images_f32 (\<lambda>x. x) sample_cv2 sample_image sample_image' = Inr out \<and> dims out 3 3 \<and>
     out ! 1 ! 1 =
       (astype_uint8 (blend_value_f32 (\<lambda>x. x) 200 190 (weight_primary ! 1 ! 1) (weight_secondary ! 1 ! 1)),
        astype_uint8 (blend_value_f32 (\<lambda>x. x) 110 100 (weight_primary ! 1 ! 1) (weight_secondary ! 1 ! 1)),
        astype_uint8 (blend_value_f32 (\<lambda>x. x) 120 130 (weight_primary ! 1 ! 1) (weight_secondary ! 1 ! 1))) \<and>
     blend_value_f32 (\<lambda>x. x) 200 190 (weight_primary ! 1 ! 1) (weight_secondary ! 1 ! 1) < 256"
proof -
  have h: "0 < (3::nat)" by simp
  have i: "(1::nat) < 3" by simp
  from blend_images_f32_pixel [OF float32_rounding_exact sample_cv2_contract h h sample_image_dims]
  show ?thesis
  proof (elim exE conjE)
    fix wp ws out
    assume res: "blend_weights_f32 (\<lambda>x. x) sample_cv2 sample_image sample_image' = Inr (wp, ws)"
      and out: "blend_images_f32 (\<lambda>x. x) sample_cv2 sample_image sample_image' = Inr out" "dims out 3 3"
      and all: "\<forall>i < 3. \<forall>j < 3.
              out ! i ! j =
                (case sample_image ! i ! j of (pb, pg, pr) \<Rightarrow>
                 case sample_image' ! i ! j of (sb, sg, sr) \<Rightarrow>
                   (astype_uint8 (blend_value_f32 (\<lambda>x. x) pb sb (wp ! i ! j) (ws ! i ! j)),
                    astype_uint8 (blend_value_f32 (\<lambda>x. x) pg sg (wp ! i ! j) (ws ! i ! j)),
                    astype_uint8 (blend_value_f32 (\<lambda>x. x) pr sr (wp ! i ! j) (ws ! i ! j)))) \<and>
              (\<forall>pc sc.
                 0 \<le> blend_value_f32 (\<lambda>x. x) pc sc (wp ! i ! j) (ws ! i ! j) \<and>
                 blend_value_f32 (\<lambda>x. x) pc sc (wp ! i ! j) (ws ! i ! j) < 256 \<and>
                 uint (astype_uint8 (blend_value_f32 (\<lambda>x. x) pc sc (wp ! i ! j) (ws ! i ! j)))
                   = \<lfloor>blend_value_f32 (\<lambda>x. x) pc sc (wp ! i ! j) (ws ! i ! j)\<rfloor> \<and>
                 \<bar>blend_value_f32 (\<lambda>x. x) pc sc (wp ! i ! j) (ws ! i ! j)
                    - blend_value pc sc (wp ! i ! j) (ws ! i ! j)\<bar> \<le> 1 / 2 ^ 14)"
    note one = all [rule_format, OF i i]
    from one have "out ! 1 ! 1 =
                (case sample_image ! 1 ! 1 of (pb, pg, pr) \<Rightarrow>
                 case sample_image' ! 1 ! 1 of (sb, sg, sr) \<Rightarrow>
                   (astype_uint8 (blend_value_f32 (\<lambda>x. x) pb sb (wp ! 1 ! 1) (ws ! 1 ! 1)),
                    astype_uint8 (blend_value_f32 (\<lambda>x. x) pg sg (wp ! 1 ! 1) (ws ! 1 ! 1)),
                    astype_uint8 (blend_value_f32 (\<lambda>x. x) pr sr (wp ! 1 ! 1) (ws ! 1 ! 1))))"
      by (rule conjunct1)
    then have px: "out ! 1 ! 1 =
       (astype_uint8 (blend_value_f32 (\<lambda>x. x) 200 190 (wp ! 1 ! 1) (ws ! 1 ! 1)),
        astype_uint8 (blend_value_f32 (\<lambda>x. x) 110 100 (wp ! 1 ! 1) (ws ! 1 ! 1)),
        astype_uint8 (blend_value_f32 (\<lambda>x. x) 120 130 (wp ! 1 ! 1) (ws ! 1 ! 1)))"
      by (simp add: sample_image_def sample_image'_def)
    from one have "\<forall>pc sc.
                 0 \<le> blend_value_f32 (\<lambda>x. x) pc sc (wp ! 1 ! 1) (ws ! 1 ! 1) \<and>
                 blend_value_f32 (\<lambda>x. x) pc sc (wp ! 1 ! 1) (ws ! 1 ! 1) < 256 \<and>
                 uint (astype_uint8 (blend_value_f32 (\<lambda>x. x) pc sc (wp ! 1 ! 1) (ws ! 1 ! 1)))
                   = \<lfloor>blend_value_f32 (\<lambda>x. x) pc sc (wp ! 1 ! 1) (ws ! 1 ! 1)\<rfloor> \<and>
                 \<bar>blend_value_f32 (\<lambda>x. x) pc sc (wp ! 1 ! 1) (ws ! 1 ! 1)
                    - blend_value pc sc (wp ! 1 ! 1) (ws ! 1 ! 1)\<bar> \<le> 1 / 2 ^ 14"
      by (rule conjunct2)
    then have "blend_value_f32 (\<lambda>x. x) 200 190 (wp ! 1 ! 1) (ws ! 1 ! 1) < 256"
      by (elim conjE allE [of _ 200] allE [of _ 190])
    with res out px show ?thesis
      by (intro exI [of _ wp] exI [of _ ws] exI [of _ out]) simp
  qed
qed

subsection \<open>C4: the range of the sharpness map\<close>

text \<open>
  C4: for every image and every positive sigma (and OpenCV routines that meet
  \<open>cv2_contract\<close>), the sharpness map has the dimensions of the image and every value
  of it lies between \<open>epsilon = 1 / 1000000\<close> and \<open>1 + epsilon\<close>; in particular
  every value is positive and the sum of two sharpness values, the denominator of the
  blend weight, is never zero.
\<close>

theorem laplacian_sharpness_range:
  assumes "cv2_contract cv" and "0 < h" and "0 < w" and "dims img h w" and "0 < sigma"
  shows "dims (laplacian_sharpness cv img sigma) h w \<and>
         (\<forall>i < h. \<forall>j < w.
            1 / 1000000 \<le> laplacian_sharpness cv img sigma ! i ! j \<and>
            laplacian_sharpness cv img sigma ! i ! j \<le> 1 + 1 / 1000000 \<and>
            0 < laplacian_sharpness cv img sigma ! i ! j \<and>
            (\<forall>(img' :: image) sigma'. dims img' h w \<and> 0 < sigma' \<longrightarrow>
               laplacian_sharpness cv img sigma ! i ! j + laplacian_sharpness cv img' sigma' ! i ! j \<noteq> 0))"
proof (intro conjI allI impI)
  show "dims (laplacian_sharpness cv img sigma) h w"
    using assms by (rule sharpness_dims_range(1))
next
  fix i j assume ij: "i < h" "j < w"
  show lo: "1 / 1000000 \<le> laplacian_sharpness cv img sigma ! i ! j"
    using assms ij by (rule sharpness_dims_range(2))
  show "laplacian_sharpness cv img sigma ! i ! j \<le> 1 + 1 / 1000000"
    using assms ij by (rule sharpness_dims_range(3))
  from lo show pos: "0 < laplacian_sharpness cv img sigma ! i ! j" by simp
  fix img' :: image and sigma' :: real
  assume "dims img' h w \<and> 0 < sigma'"
  then have d': "dims img' h w" and s': "0 < sigma'" by simp_all
  have "1 / 1000000 \<le> laplacian_sharpness cv img' sigma' ! i ! j"
    by (rule sharpness_dims_range(2) [OF assms(1-3) d' s' ij])
  with pos show "laplacian_sharpness cv img sigma ! i ! j + laplacian_sharpness cv img' sigma' ! i ! j \<noteq> 0"
    by simp
qed

theorem laplacian_sharpness_range_witness:
  "dims (laplacian_sharpness sample_cv2 sample_image (3 / 2)) 3 3 \<and>
   1 / 1000000 \<le> laplacian_sharpness sample_cv2 sample_image (3 / 2) ! 0 ! 1 \<and>
   laplacian_sharpness sample_cv2 sample_image (3 / 2) ! 0 ! 1 \<le> 1 + 1 / 1000000 \<and>
   laplacian_sharpness sample_cv2 sample_image (3 / 2) ! 0 ! 1
     + laplacian_sharpness sample_cv2 sample_image' (3 / 2) ! 0 ! 1 \<noteq> 0"
proof -
  have h: "0 < (3::nat)" and sigma: "(0::real) < 3 / 2" by simp_all
  note t = laplacian_sharpness_range [OF sample_cv2_contract h h sample_image_dims(1) sigma]
  from t have d: "dims (laplacian_sharpness sample_cv2 sample_image (3 / 2)) 3 3" by (rule conjunct1)
  from t have "\<forall>j<3.
            1 / 1000000 \<le> laplacian_sharpness sample_cv2 sample_image (3 / 2) ! 0 ! j \<and>
            laplacian_sharpness sample_cv2 sample_image (3 / 2) ! 0 ! j \<le> 1 + 1 / 1000000 \<and>
            0 < laplacian_sharpness sample_cv2 sample_image (3 / 2) ! 0 ! j \<and>
            (\<forall>(img' :: image) sigma'. dims img' 3 3 \<and> 0 < sigma' \<longrightarrow>
               laplacian_sharpness sample_cv2 sample_image (3 / 2) ! 0 ! j + laplacian_sharpness sample_cv2 img' sigma' ! 0 ! j \<noteq> 0)"
    by (elim conjE allE [of _ 0]) simp
  then have p: "1 / 1000000 \<le> laplacian_sharpness sample_cv2 sample_image (3 / 2) ! 0 ! 1 \<and>
            laplacian_sharpness sample_cv2 sample_image (3 / 2) ! 0 ! 1 \<le> 1 + 1 / 1000000 \<and>
            0 < laplacian_sharpness sample_cv2 sample_image (3 / 2) ! 0 ! 1 \<and>
            (\<forall>(img' :: image) sigma'. dims img' 3 3 \<and> 0 < sigma' \<longrightarrow>
               laplacian_sharpness sample_cv2 sample_image (3 / 2) ! 0 ! 1 + laplacian_sharpness sample_cv2 img' sigma' ! 0 ! 1 \<noteq> 0)"
    by (elim allE [of _ 1]) simp
  then have "laplacian_sharpness sample_cv2 sample_image (3 / 2) ! 0 ! 1
     + laplacian_sharpness sample_cv2 sample_image' (3 / 2) ! 0 ! 1 \<noteq> 0"
    using sample_image_dims(2) sigma by (elim conjE allE [of _ sample_image'] allE [of _ "3 / 2"]) simp
  with d p show ?thesis by simp
qed

subsection \<open>Auxiliary facts about the aligner\<close>

lemma keypoint_pts_error: "keypoint_pts kp idxs = Inl e \<Longrightarrow> e = IndexError"
  by (induction idxs arbitrary: e)
     (auto simp: py_index_def split: sum.splits if_splits)

lemma keypoint_pts_valid:
  "\<forall>i \<in> set idxs. 0 \<le> i \<and> i < int (length kp) \<Longrightarrow>
   keypoint_pts kp idxs = Inr (map (\<lambda>i. pt (kp ! nat i)) idxs)"
  by (induction idxs) (simp_all add: py_index_def)

lemma align_secondary_matched:
  assumes orb1: "ORB_detectAndCompute cv 5000 (cvtColor_BGR2GRAY cv primary) = (kp1, Some des1)"
    and orb2: "ORB_detectAndCompute cv 5000 (cvtColor_BGR2GRAY cv secondary) = (kp2, Some des2)"
  shows "align_secondary cv primary secondary =
    (if length (BFMatcher_match cv NORM_HAMMING True des1 des2) < 12 then Inl (RuntimeError matches_msg)
     else
       (case keypoint_pts kp1 (map queryIdx (take 300 (sort_key distance (BFMatcher_match cv NORM_HAMMING True des1 des2)))) of
          Inl e \<Rightarrow> Inl e
        | Inr src_pts \<Rightarrow>
         (case keypoint_pts kp2 (map trainIdx (take 300 (sort_key distance (BFMatcher_match cv NORM_HAMMING True des1 des2)))) of
            Inl e \<Rightarrow> Inl e
          | Inr dst_pts \<Rightarrow>
           (case findHomography cv dst_pts src_pts RANSAC 5 of
              None \<Rightarrow> Inl (RuntimeError homography_msg)
            | Some H \<Rightarrow> Inr (warpPerspective cv secondary H (shape1 primary, shape0 primary), H)))))"
  unfolding align_secondary_def Let_def orb1 orb2 prod.case option.case ..

lemma align_secondary_no_descriptors:
  assumes "snd (ORB_detectAndCompute cv 5000 (cvtColor_BGR2GRAY cv primary)) = None
           \<or> snd (ORB_detectAndCompute cv 5000 (cvtColor_BGR2GRAY cv secondary)) = None"
  shows "align_secondary cv primary secondary = Inl (RuntimeError descriptors_msg)"
proof -
  obtain kp1 o1 where a: "ORB_detectAndCompute cv 5000 (cvtColor_BGR2GRAY cv primary) = (kp1, o1)"
    by (cases "ORB_detectAndCompute cv 5000 (cvtColor_BGR2GRAY cv primary)")
  obtain kp2 o2 where b: "ORB_detectAndCompute cv 5000 (cvtColor_BGR2GRAY cv secondary) = (kp2, o2)"
    by (cases "ORB_detectAndCompute cv 5000 (cvtColor_BGR2GRAY cv secondary)")
  from assms have "o1 = None \<or> o2 = None" by (simp add: a b)
  then show ?thesis
    unfolding align_secondary_def Let_def a b prod.case
    by (cases o1; cases o2) simp_all
qed

lemma msgs_distinct: "descriptors_msg \<noteq> matches_msg" "homography_msg \<noteq> matches_msg"
  by (simp_all add: descriptors_msg_def matches_msg_def homography_msg_def)

lemma best_matches:
  fixes ms :: "DMatch list"
  defines "best \<equiv> take 300 (sort_key distance ms)" and "rest \<equiv> drop 300 (sort_key distance ms)"
  shows "sort_key distance ms = best @ rest"
    and "length best = min 300 (length ms)"
    and "sorted (map distance best)"
    and "\<forall>b \<in> set best. \<forall>r \<in> set rest. distance b \<le> distance r"
    and "set best \<subseteq> set ms"
proof -
  show split: "sort_key distance ms = best @ rest" by (simp add: best_def rest_def)
  show "length best = min 300 (length ms)" by (simp add: best_def min.commute)
  have s: "sorted (map distance (best @ rest))"
    unfolding split [symmetric] by (rule sorted_sort_key)
  then show "sorted (map distance best)" by (simp add: sorted_append)
  from s show "\<forall>b \<in> set best. \<forall>r \<in> set rest. distance b \<le> distance r"
    by (auto simp: sorted_append)
  have "set best \<subseteq> set (sort_key distance ms)" unfolding best_def by (rule set_take_subset)
  then show "set best \<subseteq> set ms" by simp
qed

subsection \<open>C5: the error for too few matches\<close>

text \<open>
  C5: \<open>align_secondary\<close> raises the error for insufficient matches (a RuntimeError
  with the message \<open>matches_msg\<close>) if and only if both images have descriptors and
  the cross-checked Hamming matcher returns fewer than 12 matches. With 12 or more
  matches that error is not raised.
\<close>

theorem align_secondary_insufficient_matches:
  "align_secondary cv primary secondary = Inl (RuntimeError matches_msg) \<longleftrightarrow>
     (\<exists>kp1 des1 kp2 des2.
        ORB_detectAndCompute cv 5000 (cvtColor_BGR2GRAY cv primary) = (kp1, Some des1) \<and>
        ORB_detectAndCompute cv 5000 (cvtColor_BGR2GRAY cv secondary) = (kp2, Some des2) \<and>
        length (BFMatcher_match cv NORM_HAMMING True des1 des2) < 12)"
proof -
  obtain kp1 o1 where a: "ORB_detectAndCompute cv 5000 (cvtColor_BGR2GRAY cv primary) = (kp1, o1)"
    by (cases "ORB_detectAndCompute cv 5000 (cvtColor_BGR2GRAY cv primary)")
  obtain kp2 o2 where b: "ORB_detectAndCompute cv 5000 (cvtColor_BGR2GRAY cv secondary) = (kp2, o2)"
    by (cases "ORB_detectAndCompute cv 5000 (cvtColor_BGR2GRAY cv secondary)")
  show ?thesis
  proof (cases "o1 = None \<or> o2 = None")
    case True
    then have "align_secondary cv primary secondary = Inl (RuntimeError descriptors_msg)"
      by (intro align_secondary_no_descriptors) (simp add: a b)
    with True show ?thesis by (auto simp: a b msgs_distinct)
  next
    case False
    then obtain des1 des2 where o: "o1 = Some des1" "o2 = Some des2" by auto
    note eq = align_secondary_matched [OF a [unfolded o] b [unfolded o]]
    show ?thesis
    proof (cases "length (BFMatcher_match cv NORM_HAMMING True des1 des2) < 12")
      case True
      then show ?thesis by (simp add: eq a b o)
    next
      case enough: False
      have "align_secondary cv primary secondary \<noteq> Inl (RuntimeError matches_msg)"
        unfolding eq using enough
        by (auto simp: msgs_distinct split: sum.splits option.splits dest: keypoint_pts_error)
      with enough show ?thesis by (simp add: a b o)
    qed
  qed
qed

subsection \<open>C6: the homography estimate\<close>

text \<open>
  C6: when both images have descriptors and at least 12 matches are found (with
  indices into the two keypoint lists), \<open>align_secondary\<close> sorts the matches by
  ascending distance, keeps the first 300 at most (no match left out is closer than one
  kept), and calls \<open>findHomography\<close> with the method RANSAC and the threshold 5 on the
  keypoints of the secondary image as source points and the keypoints of the primary
  image as destination points; its result is the warp of the secondary image by that
  homography, or the homography error.
\<close>

theorem align_secondary_homography:
  assumes orb1: "ORB_detectAndCompute cv 5000 (cvtColor_BGR2GRAY cv primary) = (kp1, Some des1)"
    and orb2: "ORB_detectAndCompute cv 5000 (cvtColor_BGR2GRAY cv secondary) = (kp2, Some des2)"
    and enough: "12 \<le> length (BFMatcher_match cv NORM_HAMMING True des1 des2)"
    and valid: "\<forall>m \<in> set (BFMatcher_match cv NORM_HAMMING True des1 des2).
                  0 \<le> queryIdx m \<and> queryIdx m < int (length kp1) \<and>
                  0 \<le> trainIdx m \<and> trainIdx m < int (length kp2)"
  shows "\<exists>best rest.
           sort_key distance (BFMatcher_match cv NORM_HAMMING True des1 des2) = best @ rest \<and>
           length best = min 300 (length (BFMatcher_match cv NORM_HAMMING True des1 des2)) \<and>
           sorted (map distance best) \<and>
           (\<forall>b \<in> set best. \<forall>r \<in> set rest. distance b \<le> distance r) \<and>
           align_secondary cv primary secondary =
             (case findHomography cv (map (\<lambda>m. pt (kp2 ! nat (trainIdx m))) best)
                                     (map (\<lambda>m. pt (kp1 ! nat (queryIdx m))) best) RANSAC 5 of
                None \<Rightarrow> Inl (RuntimeError homography_msg)
              | Some H \<Rightarrow> Inr (warpPerspective cv secondary H (shape1 primary, shape0 primary), H))"
proof -
  define ms where "ms = BFMatcher_match cv NORM_HAMMING True des1 des2"
  define best where "best = take 300 (sort_key distance ms)"
  define rest where "rest = drop 300 (sort_key distance ms)"
  note b = best_matches [of ms, folded best_def rest_def]
  from b(5) valid have v1: "\<forall>i \<in> set (map queryIdx best). 0 \<le> i \<and> i < int (length kp1)"
    and v2: "\<forall>i \<in> set (map trainIdx best). 0 \<le> i \<and> i < int (length kp2)"
    unfolding ms_def [symmetric] by auto
  have src: "keypoint_pts kp1 (map queryIdx best) = Inr (map (\<lambda>m. pt (kp1 ! nat (queryIdx m))) best)"
    using keypoint_pts_valid [OF v1] by (simp add: comp_def)
  have dst: "keypoint_pts kp2 (map trainIdx best) = Inr (map (\<lambda>m. pt (kp2 ! nat (trainIdx m))) best)"
    using keypoint_pts_valid [OF v2] by (simp add: comp_def)
  have "\<not> length ms < 12" using enough by (simp add: ms_def)
  then have "align_secondary cv primary secondary =
             (case findHomography cv (map (\<lambda>m. pt (kp2 ! nat (trainIdx m))) best)
                                     (map (\<lambda>m. pt (kp1 ! nat (queryIdx m))) best) RANSAC 5 of
                None \<Rightarrow> Inl (RuntimeError homography_msg)
              | Some H \<Rightarrow> Inr (warpPerspective cv secondary H (shape1 primary, shape0 primary), H))"
    unfolding align_secondary_matched [OF orb1 orb2] ms_def [symmetric] best_def [symmetric]
    by (simp add: src dst)
  with b(1-4) show ?thesis unfolding ms_def by blast
qed

theorem align_secondary_homography_witness:
  "align_secondary sample_cv2 sample_image sample_image' =
     Inr (sample_warpPerspective sample_image' [[1, 0, 0], [0, 1, 0], [0, 0, 1]] (3, 3),
          [[1, 0, 0], [0, 1, 0], [0, 0, 1]])"
proof -
  let ?kp = "map (\<lambda>k. \<lparr>pt = (real k, real (2 * k))\<rparr>) [0..<13]"
  let ?des = "map (\<lambda>k. [word_of_nat k :: 8 word]) [0..<13]"
  have orb1: "ORB_detectAndCompute sample_cv2 5000 (cvtColor_BGR2GRAY sample_cv2 sample_image) = (?kp, Some ?des)"
    by (simp add: sample_cv2_def sample_ORB_nonempty sample_cvtColor_def sample_image_def)
  have orb2: "ORB_detectAndCompute sample_cv2 5000 (cvtColor_BGR2GRAY sample_cv2 sample_image') = (?kp, Some ?des)"
    by (simp add: sample_cv2_def sample_ORB_nonempty sample_cvtColor_def sample_image'_def)
  have len: "length (BFMatcher_match sample_cv2 NORM_HAMMING True ?des ?des) = 13"
    by (simp add: sample_cv2_def sample_match_def)
  then have enough: "12 \<le> length (BFMatcher_match sample_cv2 NORM_HAMMING True ?des ?des)" by simp
  have valid: "\<forall>m \<in> set (BFMatcher_match sample_cv2 NORM_HAMMING True ?des ?des).
                  0 \<le> queryIdx m \<and> queryIdx m < int (length ?kp) \<and>
                  0 \<le> trainIdx m \<and> trainIdx m < int (length ?kp)"
    by (auto simp: sample_cv2_def sample_match_def)
  from align_secondary_homography [OF orb1 orb2 enough valid] show ?thesis
  proof (elim exE conjE)
    fix best rest :: "DMatch list"
    assume l: "length best = min 300 (length (BFMatcher_match sample_cv2 NORM_HAMMING True ?des ?des))"
      and eq: "align_secondary sample_cv2 sample_image sample_image' =
             (case findHomography sample_cv2 (map (\<lambda>m. pt (?kp ! nat (trainIdx m))) best)
                                     (map (\<lambda>m. pt (?kp ! nat (queryIdx m))) best) RANSAC 5 of
                None \<Rightarrow> Inl (RuntimeError homography_msg)
              | Some H \<Rightarrow> Inr (warpPerspective sample_cv2 sample_image' H (shape1 sample_image, shape0 sample_image), H))"
    from l len have "length best = 13" by simp
    then have "findHomography sample_cv2 (map (\<lambda>m. pt (?kp ! nat (trainIdx m))) best)
                                     (map (\<lambda>m. pt (?kp ! nat (queryIdx m))) best) RANSAC 5
             = Some [[1, 0, 0], [0, 1, 0], [0, 0, 1]]"
      by (simp add: sample_cv2_def sample_findHomography_def)
    moreover have "warpPerspective sample_cv2 = sample_warpPerspective"
      by (simp add: sample_cv2_def)
    moreover have "shape1 sample_image = 3" "shape0 sample_image = 3"
      by (simp_all add: shape1_def shape0_def sample_image_def)
    ultimately show ?thesis
      using eq by (simp only: option.case)
  qed
qed

end
